theory Spec2Isabelle
  imports Main
begin

section \<open>Memory persistence of the Firestore client: data model\<close>

text \<open>
  The development embeds \<^verbatim>\<open>packages/firestore/src/local/memory_persistence.ts\<close>.
  A \<^verbatim>\<open>PersistencePromise\<close> of the memory implementation is settled by the time it is
  returned, so a chain of \<^verbatim>\<open>next\<close> calls is sequential code: a promise of an \<open>'a\<close> is a
  value of \<open>error + 'a\<close>, \<open>Inl\<close> for a rejection or a thrown exception. Every method
  of a delegate below that returns \<open>Inl\<close> has written no field before it failed, so the
  state after its failure is the state before it. \<open>runTransaction\<close> has no rollback: the
  state a failed transaction leaves behind is not part of its result here.
\<close>

text \<open>Modelled from the spec: the error codes of \<^verbatim>\<open>util/error\<close>.\<close>

datatype Code =
  OK | CANCELLED | UNKNOWN | INVALID_ARGUMENT | DEADLINE_EXCEEDED | NOT_FOUND
  | ALREADY_EXISTS | PERMISSION_DENIED | UNAUTHENTICATED | RESOURCE_EXHAUSTED
  | FAILED_PRECONDITION | ABORTED | OUT_OF_RANGE | UNIMPLEMENTED | INTERNAL
  | UNAVAILABLE | DATA_LOSS

text \<open>
  Modelled from the spec: the three ways an operation of this file fails:
  \<^verbatim>\<open>fail(...)\<close> and \<^verbatim>\<open>assert(...)\<close> of \<^verbatim>\<open>util/assert\<close> (an internal assertion
  failure, fatal), a \<^verbatim>\<open>FirestoreError\<close> with its code and message, and the
  \<^verbatim>\<open>TypeError\<close> of the runtime when a method is called on \<^verbatim>\<open>null\<close> (the non-null
  assertion \<^verbatim>\<open>this.inMemoryPins!\<close> is erased by the compiler).
\<close>

datatype error =
  AssertionFailure string
  | FirestoreError Code string
  | TypeError string

text \<open>
  Modelled from the spec: \<^verbatim>\<open>DocumentKey\<close> (\<^verbatim>\<open>model/document_key\<close>), an immutable
  identifier with path-derived equality. A key is an object: \<open>ident\<close> is the identity of
  the object, which is what the built-in \<^verbatim>\<open>Set<DocumentKey>\<close> compares, and \<open>path\<close> its
  segments, which is what \<^verbatim>\<open>isEqual\<close>, the sorted collections and \<^verbatim>\<open>ObjectMap\<close> compare.
  Equality of the datatype is equality of identity and path.
\<close>

datatype DocumentKey = DocumentKey (ident: nat) (path: "string list")

text \<open>Modelled from the spec: \<^verbatim>\<open>DocumentKey.isEqual\<close>, equality of the paths.\<close>

definition isEqual :: "DocumentKey \<Rightarrow> DocumentKey \<Rightarrow> bool" where
  "isEqual a b = (path a = path b)"

type_synonym ListenSequenceNumber = int

record MemoryTransaction =
  currentSequenceNumber :: ListenSequenceNumber

text \<open>
  Modelled from the spec: \<^verbatim>\<open>TargetData\<close> (\<^verbatim>\<open>local/target_data\<close>), the metadata of one
  target: its id and the sequence number at which it was last used;
  \<^verbatim>\<open>withSequenceNumber\<close> yields a copy with a new sequence number.
\<close>

record TargetData =
  targetId :: nat
  sequenceNumber :: ListenSequenceNumber

definition withSequenceNumber :: "TargetData \<Rightarrow> ListenSequenceNumber \<Rightarrow> TargetData" where
  "withSequenceNumber td n = td\<lparr>sequenceNumber := n\<rparr>"

subsection \<open>The collaborators\<close>

text \<open>
  Modelled from the spec: \<^verbatim>\<open>ReferenceSet\<close> (\<^verbatim>\<open>local/reference_set\<close>), the caller-held
  in-memory pins, a set of document keys asked with \<^verbatim>\<open>containsKey\<close>.
\<close>

type_synonym ReferenceSet = "DocumentKey list"

text \<open>Modelled from the spec: \<^verbatim>\<open>ReferenceSet.containsKey\<close>.\<close>

definition ReferenceSet_containsKey :: "ReferenceSet \<Rightarrow> DocumentKey \<Rightarrow> bool" where
  "ReferenceSet_containsKey refs key = (path key \<in> set (map path refs))"

text \<open>
  Modelled from the spec: \<^verbatim>\<open>MemoryMutationQueue\<close> (\<^verbatim>\<open>local/memory_mutation_queue\<close>), the
  pending writes of one user; \<^verbatim>\<open>containsKey\<close> tells whether a pending write touches the
  document. The queue is the list of the keys its pending writes touch.
\<close>

type_synonym MemoryMutationQueue = "DocumentKey list"

text \<open>Modelled from the spec: \<^verbatim>\<open>MemoryMutationQueue.containsKey\<close>.\<close>

definition MutationQueue_containsKey ::
  "MemoryMutationQueue \<Rightarrow> MemoryTransaction \<Rightarrow> DocumentKey \<Rightarrow> error + bool" where
  "MutationQueue_containsKey queue txn key = Inr (path key \<in> set (map path queue))"

text \<open>
  Modelled from the spec: \<^verbatim>\<open>MemoryTargetCache\<close> (\<^verbatim>\<open>local/memory_target_cache\<close>): the
  metadata of the targets, and the documents each target still matches. \<^verbatim>\<open>containsKey\<close>
  tells whether some target matches the document, \<^verbatim>\<open>getMatchingKeysForTargetId\<close> yields
  the documents of one target, \<^verbatim>\<open>removeTargetData\<close> deletes the target's metadata (and
  with it what the target matched), \<^verbatim>\<open>updateTargetData\<close> stores new metadata for a
  target.
\<close>

record MemoryTargetCache =
  targets :: "TargetData list"
  references :: "(DocumentKey \<times> nat) list"

text \<open>Modelled from the spec: \<^verbatim>\<open>MemoryTargetCache.containsKey\<close>.\<close>

definition TargetCache_containsKey ::
  "MemoryTargetCache \<Rightarrow> MemoryTransaction \<Rightarrow> DocumentKey \<Rightarrow> error + bool" where
  "TargetCache_containsKey cache txn key =
     Inr (path key \<in> set (map (path \<circ> fst) (references cache)))"

text \<open>Modelled from the spec: \<^verbatim>\<open>MemoryTargetCache.getMatchingKeysForTargetId\<close>.\<close>

definition getMatchingKeysForTargetId ::
  "MemoryTargetCache \<Rightarrow> MemoryTransaction \<Rightarrow> nat \<Rightarrow> error + DocumentKey list" where
  "getMatchingKeysForTargetId cache txn tid =
     Inr (map fst (filter (\<lambda>r. snd r = tid) (references cache)))"

text \<open>Modelled from the spec: \<^verbatim>\<open>MemoryTargetCache.removeTargetData\<close>.\<close>

definition removeTargetData ::
  "MemoryTargetCache \<Rightarrow> MemoryTransaction \<Rightarrow> TargetData \<Rightarrow> error + MemoryTargetCache" where
  "removeTargetData cache txn td =
     Inr (cache\<lparr>targets := filter (\<lambda>t. targetId t \<noteq> targetId td) (targets cache),
               references := filter (\<lambda>r. snd r \<noteq> targetId td) (references cache)\<rparr>)"

text \<open>Modelled from the spec: \<^verbatim>\<open>MemoryTargetCache.updateTargetData\<close>; a target is
  identified by its id.\<close>

definition updateTargetData ::
  "MemoryTargetCache \<Rightarrow> MemoryTransaction \<Rightarrow> TargetData \<Rightarrow> error + MemoryTargetCache" where
  "updateTargetData cache txn td =
     Inr (cache\<lparr>targets :=
            (if targetId td \<in> set (map targetId (targets cache))
             then map (\<lambda>t. if targetId t = targetId td then td else t) (targets cache)
             else targets cache @ [td])\<rparr>)"

text \<open>
  Modelled from the spec: \<^verbatim>\<open>MemoryRemoteDocumentCache\<close>
  (\<^verbatim>\<open>local/memory_remote_document_cache\<close>) and its change buffer: \<^verbatim>\<open>removeEntry\<close> stages
  the removal of a key, \<^verbatim>\<open>apply\<close> commits the staged writes together, and
  \<^verbatim>\<open>forEachDocumentKey\<close> visits the key of every resident document. The cache is the
  list of the resident keys in the order it visits them; the buffer is the list of the
  keys whose removal is staged.
\<close>

record MemoryRemoteDocumentCache =
  docs :: "DocumentKey list"

type_synonym RemoteDocumentChangeBuffer = "DocumentKey list"

text \<open>Modelled from the spec: \<^verbatim>\<open>MemoryRemoteDocumentCache.newChangeBuffer\<close>, a buffer
  with nothing staged.\<close>

definition newChangeBuffer :: "MemoryRemoteDocumentCache \<Rightarrow> RemoteDocumentChangeBuffer" where
  "newChangeBuffer cache = []"

text \<open>Modelled from the spec: \<^verbatim>\<open>RemoteDocumentChangeBuffer.removeEntry\<close>.\<close>

definition removeEntry :: "RemoteDocumentChangeBuffer \<Rightarrow> DocumentKey \<Rightarrow> RemoteDocumentChangeBuffer" where
  "removeEntry buffer key = buffer @ [key]"

text \<open>Modelled from the spec: \<^verbatim>\<open>RemoteDocumentChangeBuffer.apply\<close>: every staged
  removal is carried out on the cache, keys compared by path.\<close>

definition apply_changes ::
  "RemoteDocumentChangeBuffer \<Rightarrow> MemoryTransaction \<Rightarrow> MemoryRemoteDocumentCache
     \<Rightarrow> error + MemoryRemoteDocumentCache" where
  "apply_changes buffer txn cache =
     Inr (cache\<lparr>docs := filter (\<lambda>d. path d \<notin> set (map path buffer)) (docs cache)\<rparr>)"

text \<open>Whether the document cache holds an entry for the key.\<close>

definition cacheContains :: "MemoryRemoteDocumentCache \<Rightarrow> DocumentKey \<Rightarrow> bool" where
  "cacheContains cache key = (path key \<in> set (map path (docs cache)))"

text \<open>
  Modelled from the spec: \<^verbatim>\<open>PersistencePromise.or\<close> (\<^verbatim>\<open>local/persistence_promise\<close>), the
  lazy disjunction of a list of zero-argument predicates, evaluated in the order of the
  list and stopping at the first that yields true; a predicate that fails ends the
  evaluation with its error. \<open>or_run\<close> also counts the predicates it has called.
\<close>

fun or_run :: "(unit \<Rightarrow> error + bool) list \<Rightarrow> nat \<times> (error + bool)" where
  "or_run [] = (0, Inr False)"
| "or_run (predicate # rest) =
     (case predicate () of
        Inl e \<Rightarrow> (1, Inl e)
      | Inr isTrue \<Rightarrow>
          if isTrue then (1, Inr isTrue)
          else (case or_run rest of (n, r) \<Rightarrow> (Suc n, r)))"

text \<open>Modelled from the spec: the value of \<^verbatim>\<open>PersistencePromise.or\<close>.\<close>

definition PersistencePromise_or :: "(unit \<Rightarrow> error + bool) list \<Rightarrow> error + bool" where
  "PersistencePromise_or predicates = snd (or_run predicates)"

text \<open>The number of predicates \<^verbatim>\<open>PersistencePromise.or\<close> calls on a list.\<close>

definition predicatesCalled :: "(unit \<Rightarrow> error + bool) list \<Rightarrow> nat" where
  "predicatesCalled predicates = fst (or_run predicates)"

subsection \<open>The persistence coordinator\<close>

text \<open>
  \<^verbatim>\<open>MemoryPersistence\<close>. The coordinator and its reference delegate hold each other; the
  delegate's fields are the field \<open>referenceDelegate\<close> of the coordinator's record, and a
  method of a delegate takes and returns the coordinator; the factory passed to the
  constructor, which in the source receives the coordinator to store, takes no argument
  here. \<open>mutationQueues\<close> lists the queues by user key in the order \<^verbatim>\<open>Object.values\<close>
  yields them.
\<close>

record 'd MemoryPersistence =
  mutationQueues :: "(string \<times> MemoryMutationQueue) list"
  remoteDocumentCache :: MemoryRemoteDocumentCache
  targetCache :: MemoryTargetCache
  listenSequence :: ListenSequenceNumber
  started_field :: bool
  referenceDelegate :: 'd

definition MemoryPersistence_new :: "(unit \<Rightarrow> 'd) \<Rightarrow> 'd MemoryPersistence" where
  "MemoryPersistence_new referenceDelegateFactory =
     \<lparr>mutationQueues = [],
      remoteDocumentCache = \<lparr>docs = []\<rparr>,
      targetCache = \<lparr>targets = [], references = []\<rparr>,
      listenSequence = 0,
      started_field = True,
      referenceDelegate = referenceDelegateFactory ()\<rparr>"

definition shutdown :: "'d MemoryPersistence \<Rightarrow> 'd MemoryPersistence" where
  "shutdown p = p\<lparr>started_field := False\<rparr>"

definition started :: "'d MemoryPersistence \<Rightarrow> bool" where
  "started p = started_field p"

definition getMutationQueue ::
  "'d MemoryPersistence \<Rightarrow> string \<Rightarrow> MemoryMutationQueue \<times> 'd MemoryPersistence" where
  "getMutationQueue p user =
     (case map_of (mutationQueues p) user of
        Some queue \<Rightarrow> (queue, p)
      | None \<Rightarrow> ([], p\<lparr>mutationQueues := mutationQueues p @ [(user, [])]\<rparr>))"

definition mutationQueuesContainKey ::
  "'d MemoryPersistence \<Rightarrow> MemoryTransaction \<Rightarrow> DocumentKey \<Rightarrow> error + bool" where
  "mutationQueuesContainKey p transaction key =
     PersistencePromise_or
       (map (\<lambda>queue. \<lambda>_. MutationQueue_containsKey queue transaction key)
          (map snd (mutationQueues p)))"


text \<open>
  Modelled from the spec: \<^verbatim>\<open>PersistencePromise.next\<close> on a settled promise: the
  continuation runs on the value, and a rejection passes through.
\<close>

definition PersistencePromise_next :: "error + 'a \<Rightarrow> ('a \<Rightarrow> error + 'b) \<Rightarrow> error + 'b" where
  "PersistencePromise_next p f = (case p of Inl e \<Rightarrow> Inl e | Inr x \<Rightarrow> f x)"

text \<open>
  \<^verbatim>\<open>runTransaction\<close>. The two hooks of the delegate interface are passed as functions,
  so that the coordinator is the same for both delegates. \<^verbatim>\<open>ListenSequence.next\<close>
  (modelled from the spec: the sequence generator yields strictly increasing integers)
  adds one to the previous value. The event raised after the commit has no listener in
  this model.
\<close>

definition runTransaction ::
  "('d MemoryPersistence \<Rightarrow> 'd MemoryPersistence)
   \<Rightarrow> ('d MemoryPersistence \<Rightarrow> MemoryTransaction \<Rightarrow> error + 'd MemoryPersistence)
   \<Rightarrow> 'd MemoryPersistence \<Rightarrow> string \<Rightarrow> string
   \<Rightarrow> (MemoryTransaction \<Rightarrow> 'd MemoryPersistence \<Rightarrow> error + ('a \<times> 'd MemoryPersistence))
   \<Rightarrow> error + ('a \<times> 'd MemoryPersistence)" where
  "runTransaction onTransactionStarted onTransactionCommitted p action mode transactionOperation =
     (let txn = \<lparr>currentSequenceNumber = listenSequence p + 1\<rparr>;
          p1 = onTransactionStarted (p\<lparr>listenSequence := listenSequence p + 1\<rparr>)
      in PersistencePromise_next (transactionOperation txn p1) (\<lambda>(result, p2).
           PersistencePromise_next (onTransactionCommitted p2 txn) (\<lambda>p3.
             Inr (result, p3))))"

section \<open>The eager reference delegate\<close>

text \<open>
  \<^verbatim>\<open>MemoryEagerDelegate\<close>. The private field \<^verbatim>\<open>_orphanedDocuments\<close> is a built-in
  \<^verbatim>\<open>Set\<close> or \<^verbatim>\<open>null\<close>: a list without repetition in insertion order, the order in
  which \<^verbatim>\<open>forEach\<close> visits it. The built-in set compares objects by identity, which is
  the equality of \<^typ>\<open>DocumentKey\<close>.
\<close>

record MemoryEagerDelegate =
  eager_inMemoryPins :: "ReferenceSet option"
  priv_orphanedDocuments :: "DocumentKey list option"

definition MemoryEagerDelegate_new :: MemoryEagerDelegate where
  "MemoryEagerDelegate_new = \<lparr>eager_inMemoryPins = None, priv_orphanedDocuments = None\<rparr>"

definition Set_add :: "DocumentKey list \<Rightarrow> DocumentKey \<Rightarrow> DocumentKey list" where
  "Set_add s key = (if key \<in> set s then s else s @ [key])"

definition Set_delete :: "DocumentKey list \<Rightarrow> DocumentKey \<Rightarrow> DocumentKey list" where
  "Set_delete s key = filter (\<lambda>k. k \<noteq> key) s"

definition orphanedDocuments :: "MemoryEagerDelegate \<Rightarrow> error + DocumentKey list" where
  "orphanedDocuments d =
     (case priv_orphanedDocuments d of
        None \<Rightarrow> Inl (AssertionFailure ''orphanedDocuments is only valid during a transaction.'')
      | Some s \<Rightarrow> Inr s)"

definition write_orphanedDocuments ::
  "MemoryEagerDelegate MemoryPersistence \<Rightarrow> DocumentKey list option
     \<Rightarrow> MemoryEagerDelegate MemoryPersistence" where
  "write_orphanedDocuments p s =
     p\<lparr>referenceDelegate := (referenceDelegate p)\<lparr>priv_orphanedDocuments := s\<rparr>\<rparr>"

definition Eager_setInMemoryPins ::
  "MemoryEagerDelegate MemoryPersistence \<Rightarrow> ReferenceSet \<Rightarrow> MemoryEagerDelegate MemoryPersistence" where
  "Eager_setInMemoryPins p inMemoryPins =
     p\<lparr>referenceDelegate := (referenceDelegate p)\<lparr>eager_inMemoryPins := Some inMemoryPins\<rparr>\<rparr>"

definition Eager_addReference ::
  "MemoryEagerDelegate MemoryPersistence \<Rightarrow> MemoryTransaction \<Rightarrow> DocumentKey
     \<Rightarrow> error + MemoryEagerDelegate MemoryPersistence" where
  "Eager_addReference p txn key =
     PersistencePromise_next (orphanedDocuments (referenceDelegate p)) (\<lambda>s.
       Inr (write_orphanedDocuments p (Some (Set_delete s key))))"

definition Eager_removeReference ::
  "MemoryEagerDelegate MemoryPersistence \<Rightarrow> MemoryTransaction \<Rightarrow> DocumentKey
     \<Rightarrow> error + MemoryEagerDelegate MemoryPersistence" where
  "Eager_removeReference p txn key =
     PersistencePromise_next (orphanedDocuments (referenceDelegate p)) (\<lambda>s.
       Inr (write_orphanedDocuments p (Some (Set_add s key))))"

definition Eager_removeMutationReference ::
  "MemoryEagerDelegate MemoryPersistence \<Rightarrow> MemoryTransaction \<Rightarrow> DocumentKey
     \<Rightarrow> error + MemoryEagerDelegate MemoryPersistence" where
  "Eager_removeMutationReference p txn key =
     PersistencePromise_next (orphanedDocuments (referenceDelegate p)) (\<lambda>s.
       Inr (write_orphanedDocuments p (Some (Set_add s key))))"

text \<open>The loop \<^verbatim>\<open>keys.forEach(key => this.orphanedDocuments.add(key))\<close> of \<^verbatim>\<open>removeTarget\<close>:
  the getter is read once for every key, and never for an empty list of keys.\<close>

fun addOrphans ::
  "MemoryEagerDelegate MemoryPersistence \<Rightarrow> DocumentKey list
     \<Rightarrow> error + MemoryEagerDelegate MemoryPersistence" where
  "addOrphans p [] = Inr p"
| "addOrphans p (key # keys) =
     (case orphanedDocuments (referenceDelegate p) of
        Inl e \<Rightarrow> Inl e
      | Inr s \<Rightarrow> addOrphans (write_orphanedDocuments p (Some (Set_add s key))) keys)"

definition Eager_removeTarget ::
  "MemoryEagerDelegate MemoryPersistence \<Rightarrow> MemoryTransaction \<Rightarrow> TargetData
     \<Rightarrow> error + MemoryEagerDelegate MemoryPersistence" where
  "Eager_removeTarget p txn targetData =
     PersistencePromise_next
       (getMatchingKeysForTargetId (targetCache p) txn (targetId targetData)) (\<lambda>keys.
     PersistencePromise_next (addOrphans p keys) (\<lambda>p1.
     PersistencePromise_next (removeTargetData (targetCache p1) txn targetData) (\<lambda>cache.
       Inr (p1\<lparr>targetCache := cache\<rparr>))))"

definition Eager_onTransactionStarted ::
  "MemoryEagerDelegate MemoryPersistence \<Rightarrow> MemoryEagerDelegate MemoryPersistence" where
  "Eager_onTransactionStarted p = write_orphanedDocuments p (Some [])"

definition Eager_isReferenced ::
  "MemoryEagerDelegate MemoryPersistence \<Rightarrow> MemoryTransaction \<Rightarrow> DocumentKey \<Rightarrow> error + bool" where
  "Eager_isReferenced p txn key =
     PersistencePromise_or
       [\<lambda>_. TargetCache_containsKey (targetCache p) txn key,
        \<lambda>_. mutationQueuesContainKey p txn key,
        \<lambda>_. (case eager_inMemoryPins (referenceDelegate p) of
               None \<Rightarrow> Inl (TypeError ''inMemoryPins is null'')
             | Some pins \<Rightarrow> Inr (ReferenceSet_containsKey pins key))]"

text \<open>The loop of \<^verbatim>\<open>onTransactionCommitted\<close> over the orphan candidates: a candidate
  that is not referenced has its removal staged in the change buffer.\<close>

fun stageOrphans ::
  "MemoryEagerDelegate MemoryPersistence \<Rightarrow> MemoryTransaction \<Rightarrow> DocumentKey list
     \<Rightarrow> RemoteDocumentChangeBuffer \<Rightarrow> error + RemoteDocumentChangeBuffer" where
  "stageOrphans p txn [] changeBuffer = Inr changeBuffer"
| "stageOrphans p txn (key # keys) changeBuffer =
     (case Eager_isReferenced p txn key of
        Inl e \<Rightarrow> Inl e
      | Inr isReferenced \<Rightarrow>
          stageOrphans p txn keys
            (if \<not> isReferenced then removeEntry changeBuffer key else changeBuffer))"

definition Eager_onTransactionCommitted ::
  "MemoryEagerDelegate MemoryPersistence \<Rightarrow> MemoryTransaction
     \<Rightarrow> error + MemoryEagerDelegate MemoryPersistence" where
  "Eager_onTransactionCommitted p txn =
     (let cache = remoteDocumentCache p;
          changeBuffer = newChangeBuffer cache
      in PersistencePromise_next (orphanedDocuments (referenceDelegate p)) (\<lambda>orphans.
         PersistencePromise_next (stageOrphans p txn orphans changeBuffer) (\<lambda>staged.
           let p1 = write_orphanedDocuments p None
           in PersistencePromise_next (apply_changes staged txn (remoteDocumentCache p1)) (\<lambda>cache1.
                Inr (p1\<lparr>remoteDocumentCache := cache1\<rparr>)))))"

definition Eager_updateLimboDocument ::
  "MemoryEagerDelegate MemoryPersistence \<Rightarrow> MemoryTransaction \<Rightarrow> DocumentKey
     \<Rightarrow> error + MemoryEagerDelegate MemoryPersistence" where
  "Eager_updateLimboDocument p txn key =
     PersistencePromise_next (Eager_isReferenced p txn key) (\<lambda>isReferenced.
     PersistencePromise_next (orphanedDocuments (referenceDelegate p)) (\<lambda>s.
       if isReferenced then Inr (write_orphanedDocuments p (Some (Set_delete s key)))
       else Inr (write_orphanedDocuments p (Some (Set_add s key)))))"

definition Eager_documentSize :: "'doc \<Rightarrow> nat" where
  "Eager_documentSize doc = 0"

definition Eager_runTransaction ::
  "MemoryEagerDelegate MemoryPersistence \<Rightarrow> string \<Rightarrow> string
   \<Rightarrow> (MemoryTransaction \<Rightarrow> MemoryEagerDelegate MemoryPersistence
        \<Rightarrow> error + ('a \<times> MemoryEagerDelegate MemoryPersistence))
   \<Rightarrow> error + ('a \<times> MemoryEagerDelegate MemoryPersistence)" where
  "Eager_runTransaction = runTransaction Eager_onTransactionStarted Eager_onTransactionCommitted"


section \<open>The LRU reference delegate\<close>

text \<open>
  Modelled from the spec: \<^verbatim>\<open>ObjectMap\<close> (\<^verbatim>\<open>util/obj_map\<close>), the map from document key
  to the sequence number of the most recent event, a new value overwriting the old one.
  Keys are compared by path. The map is the list of its entries.
\<close>

type_synonym OrphanedSequenceNumbers = "(DocumentKey \<times> ListenSequenceNumber) list"

text \<open>Modelled from the spec: \<^verbatim>\<open>ObjectMap.get\<close>, \<^verbatim>\<open>undefined\<close> as \<open>None\<close>.\<close>

definition ObjectMap_get :: "OrphanedSequenceNumbers \<Rightarrow> DocumentKey \<Rightarrow> ListenSequenceNumber option" where
  "ObjectMap_get m key = map_of (map (\<lambda>entry. (path (fst entry), snd entry)) m) (path key)"

text \<open>Modelled from the spec: \<^verbatim>\<open>ObjectMap.set\<close>, which overwrites the entry of an
  equal key.\<close>

definition ObjectMap_set ::
  "OrphanedSequenceNumbers \<Rightarrow> DocumentKey \<Rightarrow> ListenSequenceNumber \<Rightarrow> OrphanedSequenceNumbers" where
  "ObjectMap_set m key v =
     (if path key \<in> set (map (path \<circ> fst) m)
      then map (\<lambda>entry. if path (fst entry) = path key then (key, v) else entry) m
      else m @ [(key, v)])"

record MemoryLruDelegate =
  lru_inMemoryPins :: "ReferenceSet option"
  orphanedSequenceNumbers :: OrphanedSequenceNumbers

definition MemoryLruDelegate_new :: MemoryLruDelegate where
  "MemoryLruDelegate_new = \<lparr>lru_inMemoryPins = None, orphanedSequenceNumbers = []\<rparr>"

definition Lru_setInMemoryPins ::
  "MemoryLruDelegate MemoryPersistence \<Rightarrow> ReferenceSet \<Rightarrow> MemoryLruDelegate MemoryPersistence" where
  "Lru_setInMemoryPins p inMemoryPins =
     p\<lparr>referenceDelegate := (referenceDelegate p)\<lparr>lru_inMemoryPins := Some inMemoryPins\<rparr>\<rparr>"

definition Lru_onTransactionStarted ::
  "MemoryLruDelegate MemoryPersistence \<Rightarrow> MemoryLruDelegate MemoryPersistence" where
  "Lru_onTransactionStarted p = p"

definition Lru_onTransactionCommitted ::
  "MemoryLruDelegate MemoryPersistence \<Rightarrow> MemoryTransaction
     \<Rightarrow> error + MemoryLruDelegate MemoryPersistence" where
  "Lru_onTransactionCommitted p txn = Inr p"

definition set_orphanedAt ::
  "MemoryLruDelegate MemoryPersistence \<Rightarrow> DocumentKey \<Rightarrow> ListenSequenceNumber
     \<Rightarrow> MemoryLruDelegate MemoryPersistence" where
  "set_orphanedAt p key n =
     p\<lparr>referenceDelegate := (referenceDelegate p)
        \<lparr>orphanedSequenceNumbers :=
           ObjectMap_set (orphanedSequenceNumbers (referenceDelegate p)) key n\<rparr>\<rparr>"

definition Lru_removeMutationReference ::
  "MemoryLruDelegate MemoryPersistence \<Rightarrow> MemoryTransaction \<Rightarrow> DocumentKey
     \<Rightarrow> error + MemoryLruDelegate MemoryPersistence" where
  "Lru_removeMutationReference p txn key = Inr (set_orphanedAt p key (currentSequenceNumber txn))"

definition Lru_removeTarget ::
  "MemoryLruDelegate MemoryPersistence \<Rightarrow> MemoryTransaction \<Rightarrow> TargetData
     \<Rightarrow> error + MemoryLruDelegate MemoryPersistence" where
  "Lru_removeTarget p txn targetData =
     (let updated = withSequenceNumber targetData (currentSequenceNumber txn)
      in PersistencePromise_next (updateTargetData (targetCache p) txn updated) (\<lambda>cache.
           Inr (p\<lparr>targetCache := cache\<rparr>)))"

definition Lru_addReference ::
  "MemoryLruDelegate MemoryPersistence \<Rightarrow> MemoryTransaction \<Rightarrow> DocumentKey
     \<Rightarrow> error + MemoryLruDelegate MemoryPersistence" where
  "Lru_addReference p txn key = Inr (set_orphanedAt p key (currentSequenceNumber txn))"

definition Lru_removeReference ::
  "MemoryLruDelegate MemoryPersistence \<Rightarrow> MemoryTransaction \<Rightarrow> DocumentKey
     \<Rightarrow> error + MemoryLruDelegate MemoryPersistence" where
  "Lru_removeReference p txn key = Inr (set_orphanedAt p key (currentSequenceNumber txn))"

definition Lru_updateLimboDocument ::
  "MemoryLruDelegate MemoryPersistence \<Rightarrow> MemoryTransaction \<Rightarrow> DocumentKey
     \<Rightarrow> error + MemoryLruDelegate MemoryPersistence" where
  "Lru_updateLimboDocument p txn key = Inr (set_orphanedAt p key (currentSequenceNumber txn))"

text \<open>The four predicates of \<^verbatim>\<open>isPinned\<close>, in the order of the array literal.\<close>

definition isPinned_predicates ::
  "MemoryLruDelegate MemoryPersistence \<Rightarrow> MemoryTransaction \<Rightarrow> DocumentKey
     \<Rightarrow> ListenSequenceNumber \<Rightarrow> (unit \<Rightarrow> error + bool) list" where
  "isPinned_predicates p txn key upperBound =
     [\<lambda>_. mutationQueuesContainKey p txn key,
      \<lambda>_. (case lru_inMemoryPins (referenceDelegate p) of
             None \<Rightarrow> Inl (TypeError ''inMemoryPins is null'')
           | Some pins \<Rightarrow> Inr (ReferenceSet_containsKey pins key)),
      \<lambda>_. TargetCache_containsKey (targetCache p) txn key,
      \<lambda>_. (let orphanedAt = ObjectMap_get (orphanedSequenceNumbers (referenceDelegate p)) key
           in Inr (case orphanedAt of None \<Rightarrow> False | Some n \<Rightarrow> n > upperBound))]"

definition Lru_isPinned ::
  "MemoryLruDelegate MemoryPersistence \<Rightarrow> MemoryTransaction \<Rightarrow> DocumentKey
     \<Rightarrow> ListenSequenceNumber \<Rightarrow> error + bool" where
  "Lru_isPinned p txn key upperBound =
     PersistencePromise_or (isPinned_predicates p txn key upperBound)"

text \<open>The callback of \<^verbatim>\<open>removeOrphanedDocuments\<close>, run by \<^verbatim>\<open>forEachDocumentKey\<close> on the
  key of every resident document, with the counter and the change buffer it writes.\<close>

fun sweepDocuments ::
  "MemoryLruDelegate MemoryPersistence \<Rightarrow> MemoryTransaction \<Rightarrow> ListenSequenceNumber
     \<Rightarrow> DocumentKey list \<Rightarrow> nat \<times> RemoteDocumentChangeBuffer
     \<Rightarrow> error + (nat \<times> RemoteDocumentChangeBuffer)" where
  "sweepDocuments p txn upperBound [] acc = Inr acc"
| "sweepDocuments p txn upperBound (key # keys) (count, changeBuffer) =
     (case Lru_isPinned p txn key upperBound of
        Inl e \<Rightarrow> Inl e
      | Inr isPinned \<Rightarrow>
          sweepDocuments p txn upperBound keys
            (if \<not> isPinned then (count + 1, removeEntry changeBuffer key)
             else (count, changeBuffer)))"

definition Lru_removeOrphanedDocuments ::
  "MemoryLruDelegate MemoryPersistence \<Rightarrow> MemoryTransaction \<Rightarrow> ListenSequenceNumber
     \<Rightarrow> error + (nat \<times> MemoryLruDelegate MemoryPersistence)" where
  "Lru_removeOrphanedDocuments p txn upperBound =
     (let count = 0;
          cache = remoteDocumentCache p;
          changeBuffer = newChangeBuffer cache
      in PersistencePromise_next
           (sweepDocuments p txn upperBound (docs cache) (count, changeBuffer)) (\<lambda>(count1, staged).
         PersistencePromise_next (apply_changes staged txn cache) (\<lambda>cache1.
           Inr (count1, p\<lparr>remoteDocumentCache := cache1\<rparr>))))"

section \<open>The provider\<close>

definition MEMORY_ONLY_PERSISTENCE_ERROR_MESSAGE :: string where
  "MEMORY_ONLY_PERSISTENCE_ERROR_MESSAGE =
     ''You are using the memory-only build of Firestore. Persistence support is '' @
     ''only available via the @firebase/firestore bundle or the '' @
     ''firebase-firestore.js build.''"

text \<open>
  The interface \<^verbatim>\<open>MemoryReferenceDelegate\<close> has the two implementations of this file.
\<close>

datatype MemoryReferenceDelegate =
  EagerDelegate MemoryEagerDelegate
  | LruDelegate MemoryLruDelegate

text \<open>
  Modelled from the spec: the classes the provider builds or receives
  (\<^verbatim>\<open>PersistenceSettings\<close>, \<^verbatim>\<open>IndexFreeQueryEngine\<close>, \<^verbatim>\<open>MemorySharedClientState\<close>,
  \<^verbatim>\<open>LocalStore\<close>, \<^verbatim>\<open>SyncEngine\<close>, \<^verbatim>\<open>RemoteStore\<close>) live outside this file; each is
  the record of the arguments its constructor is given here. \<^verbatim>\<open>PersistenceSettings\<close>
  is read for its field \<^verbatim>\<open>durable\<close> only.
\<close>

record PersistenceSettings =
  durable :: bool

datatype QueryEngine = IndexFreeQueryEngine

datatype MemorySharedClientState = MemorySharedClientState

record LocalStore =
  localStore_persistence :: "MemoryReferenceDelegate MemoryPersistence"
  localStore_queryEngine :: QueryEngine
  localStore_initialUser :: string

record SyncEngine =
  syncEngine_localStore :: LocalStore
  syncEngine_sharedClientState :: MemorySharedClientState
  syncEngine_currentUser :: string
  syncEngine_maxConcurrentLimboResolutions :: nat

record RemoteStore =
  remoteStore_syncEngine :: "SyncEngine option"

record MemoryPersistenceProvider =
  clientId :: "string option"
  localStore :: "LocalStore option"
  persistence :: "MemoryReferenceDelegate MemoryPersistence option"
  syncEngine :: "SyncEngine option"
  sharedClientState :: "MemorySharedClientState option"

definition MemoryPersistenceProvider_new :: MemoryPersistenceProvider where
  "MemoryPersistenceProvider_new =
     \<lparr>clientId = None, localStore = None, persistence = None, syncEngine = None,
      sharedClientState = None\<rparr>"

text \<open>
  \<^verbatim>\<open>initialize\<close> writes fields of the provider and of the remote store it is given, so
  it returns its outcome together with both objects as it leaves them.
\<close>

definition initialize ::
  "MemoryPersistenceProvider \<Rightarrow> 'queue \<Rightarrow> RemoteStore \<Rightarrow> 'info \<Rightarrow> 'platform \<Rightarrow> string
     \<Rightarrow> string \<Rightarrow> nat \<Rightarrow> PersistenceSettings
     \<Rightarrow> (error + unit) \<times> MemoryPersistenceProvider \<times> RemoteStore" where
  "initialize this asyncQueue remoteStore databaseInfo platform clientId' initialUser
       maxConcurrentLimboResolutions settings =
     (if durable settings
      then (Inl (FirestoreError FAILED_PRECONDITION MEMORY_ONLY_PERSISTENCE_ERROR_MESSAGE),
            this, remoteStore)
      else
        let persistence' = MemoryPersistence_new (\<lambda>p. EagerDelegate MemoryEagerDelegate_new);
            sharedClientState' = MemorySharedClientState;
            localStore' = \<lparr>localStore_persistence = persistence',
                           localStore_queryEngine = IndexFreeQueryEngine,
                           localStore_initialUser = initialUser\<rparr>;
            syncEngine' = \<lparr>syncEngine_localStore = localStore',
                           syncEngine_sharedClientState = sharedClientState',
                           syncEngine_currentUser = initialUser,
                           syncEngine_maxConcurrentLimboResolutions =
                             maxConcurrentLimboResolutions\<rparr>
        in (Inr (),
            this\<lparr>clientId := Some clientId',
                 persistence := Some persistence',
                 sharedClientState := Some sharedClientState',
                 localStore := Some localStore',
                 syncEngine := Some syncEngine'\<rparr>,
            remoteStore\<lparr>remoteStore_syncEngine := Some syncEngine'\<rparr>))"

text \<open>
  The scheduler object of \<^verbatim>\<open>getGarbageCollectionScheduler\<close>: its property \<^verbatim>\<open>started\<close>,
  and the local variable \<^verbatim>\<open>started\<close> of the method, which the two closures capture.
\<close>

record GarbageCollectionScheduler =
  scheduler_started :: bool
  captured_started :: bool

definition getGarbageCollectionScheduler :: "MemoryPersistenceProvider \<Rightarrow> GarbageCollectionScheduler" where
  "getGarbageCollectionScheduler this =
     (let started' = False
      in \<lparr>scheduler_started = started', captured_started = started'\<rparr>)"

definition scheduler_start :: "GarbageCollectionScheduler \<Rightarrow> bool \<times> GarbageCollectionScheduler" where
  "scheduler_start s = (True, s\<lparr>captured_started := True\<rparr>)"

definition scheduler_stop :: "GarbageCollectionScheduler \<Rightarrow> bool \<times> GarbageCollectionScheduler" where
  "scheduler_stop s = (False, s\<lparr>captured_started := False\<rparr>)"

definition getPersistence ::
  "MemoryPersistenceProvider \<Rightarrow> error + MemoryReferenceDelegate MemoryPersistence" where
  "getPersistence this =
     (case persistence this of
        None \<Rightarrow> Inl (AssertionFailure ''initialize() not called'')
      | Some p \<Rightarrow> Inr p)"

definition clearPersistence :: "MemoryPersistenceProvider \<Rightarrow> (error + unit) \<times> MemoryPersistenceProvider" where
  "clearPersistence this =
     (Inl (FirestoreError FAILED_PRECONDITION MEMORY_ONLY_PERSISTENCE_ERROR_MESSAGE), this)"


section \<open>Sequences of calls\<close>

text \<open>
  The calls the coordinator and the caches make on the eager delegate, and a run of a
  list of them, which ends at the first call that fails.
\<close>

datatype EagerCall =
  OnTransactionStarted
  | AddReference MemoryTransaction DocumentKey
  | RemoveReference MemoryTransaction DocumentKey
  | RemoveMutationReference MemoryTransaction DocumentKey
  | RemoveTarget MemoryTransaction TargetData
  | UpdateLimboDocument MemoryTransaction DocumentKey
  | OnTransactionCommitted MemoryTransaction

fun Eager_call ::
  "EagerCall \<Rightarrow> MemoryEagerDelegate MemoryPersistence
     \<Rightarrow> error + MemoryEagerDelegate MemoryPersistence" where
  "Eager_call OnTransactionStarted p = Inr (Eager_onTransactionStarted p)"
| "Eager_call (AddReference txn key) p = Eager_addReference p txn key"
| "Eager_call (RemoveReference txn key) p = Eager_removeReference p txn key"
| "Eager_call (RemoveMutationReference txn key) p = Eager_removeMutationReference p txn key"
| "Eager_call (RemoveTarget txn targetData) p = Eager_removeTarget p txn targetData"
| "Eager_call (UpdateLimboDocument txn key) p = Eager_updateLimboDocument p txn key"
| "Eager_call (OnTransactionCommitted txn) p = Eager_onTransactionCommitted p txn"

fun Eager_calls ::
  "EagerCall list \<Rightarrow> MemoryEagerDelegate MemoryPersistence
     \<Rightarrow> error + MemoryEagerDelegate MemoryPersistence" where
  "Eager_calls [] p = Inr p"
| "Eager_calls (c # cs) p =
     (case Eager_call c p of Inl e \<Rightarrow> Inl e | Inr p1 \<Rightarrow> Eager_calls cs p1)"

text \<open>
  Whether a list of calls ends between a transaction start and the completion of the
  next commit; the first argument tells whether it began there.
\<close>

fun inTransaction :: "bool \<Rightarrow> EagerCall list \<Rightarrow> bool" where
  "inTransaction b [] = b"
| "inTransaction b (OnTransactionStarted # cs) = inTransaction True cs"
| "inTransaction b (OnTransactionCommitted txn # cs) = inTransaction False cs"
| "inTransaction b (c # cs) = inTransaction b cs"

text \<open>The four reference events of the LRU delegate that stamp a key.\<close>

datatype LruReferenceEvent =
  LruAddReference | LruRemoveReference | LruRemoveMutationReference | LruUpdateLimboDocument

fun Lru_event ::
  "LruReferenceEvent \<Rightarrow> MemoryLruDelegate MemoryPersistence \<Rightarrow> MemoryTransaction \<Rightarrow> DocumentKey
     \<Rightarrow> error + MemoryLruDelegate MemoryPersistence" where
  "Lru_event LruAddReference p txn key = Lru_addReference p txn key"
| "Lru_event LruRemoveReference p txn key = Lru_removeReference p txn key"
| "Lru_event LruRemoveMutationReference p txn key = Lru_removeMutationReference p txn key"
| "Lru_event LruUpdateLimboDocument p txn key = Lru_updateLimboDocument p txn key"

text \<open>Calls of \<^verbatim>\<open>start\<close> and \<^verbatim>\<open>stop\<close> on a scheduler object, in order.\<close>

datatype SchedulerCall = Start | Stop

fun scheduler_calls :: "SchedulerCall list \<Rightarrow> GarbageCollectionScheduler \<Rightarrow> GarbageCollectionScheduler" where
  "scheduler_calls [] s = s"
| "scheduler_calls (Start # cs) s = scheduler_calls cs (snd (scheduler_start s))"
| "scheduler_calls (Stop # cs) s = scheduler_calls cs (snd (scheduler_stop s))"


section \<open>Derived notions and example states\<close>

text \<open>
  The value \<^verbatim>\<open>isPinned\<close> yields once the in-memory pins are set, read off the state: a
  pending write of some user touches the key, or the pins hold it, or a target matches
  it, or its stored sequence number is above the bound.
\<close>

definition pinnedValue ::
  "MemoryLruDelegate MemoryPersistence \<Rightarrow> ReferenceSet \<Rightarrow> DocumentKey
     \<Rightarrow> ListenSequenceNumber \<Rightarrow> bool" where
  "pinnedValue p pins key upperBound =
     ((\<exists>q\<in>set (mutationQueues p). path key \<in> set (map path (snd q)))
      \<or> ReferenceSet_containsKey pins key
      \<or> path key \<in> set (map (path \<circ> fst) (references (targetCache p)))
      \<or> (\<exists>n. ObjectMap_get (orphanedSequenceNumbers (referenceDelegate p)) key = Some n
             \<and> n > upperBound))"

text \<open>
  Three key objects: \<open>keyA1\<close> and \<open>keyA2\<close> are two objects for the document
  \<^verbatim>\<open>rooms/a\<close>, \<open>keyB\<close> is a key of \<^verbatim>\<open>rooms/b\<close>.
\<close>

definition keyA1 :: DocumentKey where
  "keyA1 = DocumentKey 1 [''rooms'', ''a'']"

definition keyA2 :: DocumentKey where
  "keyA2 = DocumentKey 2 [''rooms'', ''a'']"

definition keyB :: DocumentKey where
  "keyB = DocumentKey 3 [''rooms'', ''b'']"

text \<open>
  A coordinator whose document cache holds \<^verbatim>\<open>rooms/a\<close> and \<^verbatim>\<open>rooms/b\<close>, with one
  target (id 1, last used at sequence number 3) that matches \<^verbatim>\<open>rooms/b\<close>, no mutation
  queue, and an empty set of in-memory pins: once under the eager delegate, once under
  the LRU delegate.
\<close>

definition eagerExample :: "MemoryEagerDelegate MemoryPersistence" where
  "eagerExample =
     Eager_setInMemoryPins
       ((MemoryPersistence_new (\<lambda>p. MemoryEagerDelegate_new))
          \<lparr>remoteDocumentCache := \<lparr>docs = [keyA1, keyB]\<rparr>,
           targetCache := \<lparr>targets = [\<lparr>targetId = 1, sequenceNumber = 3\<rparr>],
                           references = [(keyB, 1)]\<rparr>\<rparr>)
       []"

definition lruExample :: "MemoryLruDelegate MemoryPersistence" where
  "lruExample =
     Lru_setInMemoryPins
       ((MemoryPersistence_new (\<lambda>p. MemoryLruDelegate_new))
          \<lparr>remoteDocumentCache := \<lparr>docs = [keyA1, keyB]\<rparr>,
           targetCache := \<lparr>targets = [\<lparr>targetId = 1, sequenceNumber = 3\<rparr>],
                           references = [(keyB, 1)]\<rparr>\<rparr>)
       []"

text \<open>A transaction body: the pending write on \<^verbatim>\<open>rooms/a\<close> is acknowledged, and a
  reference to \<^verbatim>\<open>rooms/b\<close> is dropped.\<close>

definition exampleOperation ::
  "MemoryTransaction \<Rightarrow> MemoryEagerDelegate MemoryPersistence
     \<Rightarrow> error + (unit \<times> MemoryEagerDelegate MemoryPersistence)" where
  "exampleOperation txn p =
     PersistencePromise_next (Eager_removeMutationReference p txn keyA1) (\<lambda>p1.
     PersistencePromise_next (Eager_removeReference p1 txn keyB) (\<lambda>p2.
       Inr ((), p2)))"


section \<open>Evaluating the example states\<close>

lemmas example_defs = eagerExample_def lruExample_def keyA1_def keyA2_def keyB_def
  MemoryPersistence_new_def MemoryEagerDelegate_new_def MemoryLruDelegate_new_def
  Eager_setInMemoryPins_def Lru_setInMemoryPins_def

lemmas eager_defs = Eager_onTransactionStarted_def write_orphanedDocuments_def
  Eager_removeMutationReference_def Eager_removeReference_def Eager_addReference_def
  Eager_onTransactionCommitted_def PersistencePromise_next_def orphanedDocuments_def
  Set_add_def Set_delete_def Eager_isReferenced_def PersistencePromise_or_def
  TargetCache_containsKey_def mutationQueuesContainKey_def MutationQueue_containsKey_def
  newChangeBuffer_def removeEntry_def apply_changes_def ReferenceSet_containsKey_def
  cacheContains_def isEqual_def

lemmas lru_defs = Lru_isPinned_def isPinned_predicates_def PersistencePromise_or_def
  predicatesCalled_def mutationQueuesContainKey_def MutationQueue_containsKey_def
  TargetCache_containsKey_def ReferenceSet_containsKey_def ObjectMap_get_def ObjectMap_set_def
  set_orphanedAt_def cacheContains_def isEqual_def

section \<open>Facts about the collaborators\<close>

lemma or_constant_predicates:
  "PersistencePromise_or (map (\<lambda>x. \<lambda>_. Inr (P x)) xs) = Inr (\<exists>x\<in>set xs. P x)"
  unfolding PersistencePromise_or_def
  by (induction xs) (auto split: prod.splits)

lemma mutationQueuesContainKey_eq:
  "mutationQueuesContainKey p txn key =
     Inr (\<exists>q\<in>set (mutationQueues p). path key \<in> set (map path (snd q)))"
  unfolding mutationQueuesContainKey_def MutationQueue_containsKey_def
  using or_constant_predicates [of "\<lambda>q. path key \<in> set (map path q)" "map snd (mutationQueues p)"]
  by (simp add: comp_def)

lemma removed_path_absent:
  "x \<in> S \<Longrightarrow> x \<notin> set (map path (filter (\<lambda>d. path d \<notin> S) ds))"
  by auto

lemma overwrite_lookup_other:
  "x \<noteq> path k \<Longrightarrow>
     map_of (map (\<lambda>entry. (path (fst entry), snd entry))
        (map (\<lambda>entry. if path (fst entry) = path k then (k, v) else entry) m)) x
     = map_of (map (\<lambda>entry. (path (fst entry), snd entry)) m) x"
  by (induction m) auto

lemma overwrite_lookup_same:
  "path k \<in> set (map (path \<circ> fst) m) \<Longrightarrow>
     map_of (map (\<lambda>entry. (path (fst entry), snd entry))
        (map (\<lambda>entry. if path (fst entry) = path k then (k, v) else entry) m)) (path k)
     = Some v"
  by (induction m) auto

lemma append_lookup:
  "path k \<notin> set (map (path \<circ> fst) m) \<Longrightarrow>
     map_of (map (\<lambda>entry. (path (fst entry), snd entry)) (m @ [(k, v)])) x
     = (if x = path k then Some v
        else map_of (map (\<lambda>entry. (path (fst entry), snd entry)) m) x)"
  by (induction m) auto

lemma ObjectMap_get_set:
  "ObjectMap_get (ObjectMap_set m k v) k' =
     (if path k' = path k then Some v else ObjectMap_get m k')"
proof (cases "path k \<in> set (map (path \<circ> fst) m)")
  case True
  then show ?thesis
    unfolding ObjectMap_get_def ObjectMap_set_def
    using overwrite_lookup_other [of "path k'" k v m] overwrite_lookup_same [of k m v]
    by (simp del: set_map map_map)
next
  case False
  then show ?thesis
    unfolding ObjectMap_get_def ObjectMap_set_def
    using append_lookup [of k m v "path k'"]
    by (simp del: set_map map_map map_append)
qed

section \<open>The eager delegate: the commit removes the unreferenced candidates\<close>

lemma isReferenced_eq:
  assumes "eager_inMemoryPins (referenceDelegate p) = Some pins"
  shows "Eager_isReferenced p txn key =
     Inr (path key \<in> set (map (path \<circ> fst) (references (targetCache p)))
          \<or> (\<exists>q\<in>set (mutationQueues p). path key \<in> set (map path (snd q)))
          \<or> ReferenceSet_containsKey pins key)"
  using assms
  unfolding Eager_isReferenced_def PersistencePromise_or_def
  by (auto simp: mutationQueuesContainKey_eq TargetCache_containsKey_def)

lemma stageOrphans_eq:
  assumes "eager_inMemoryPins (referenceDelegate p) = Some pins"
  shows "stageOrphans p txn keys buffer =
     Inr (buffer @ filter (\<lambda>key. Eager_isReferenced p txn key = Inr False) keys)"
proof (induction keys arbitrary: buffer)
  case Nil
  show ?case by simp
next
  case (Cons key keys)
  show ?case
    by (simp add: Cons.IH isReferenced_eq [OF assms] removeEntry_def)
qed

lemma onTransactionCommitted_eq:
  assumes "priv_orphanedDocuments (referenceDelegate p) = Some orphans"
      and "eager_inMemoryPins (referenceDelegate p) = Some pins"
  shows "Eager_onTransactionCommitted p txn =
     Inr ((write_orphanedDocuments p None)
        \<lparr>remoteDocumentCache := (remoteDocumentCache p)
           \<lparr>docs := filter (\<lambda>d. path d \<notin> set (map path
                        (filter (\<lambda>key. Eager_isReferenced p txn key = Inr False) orphans)))
                      (docs (remoteDocumentCache p))\<rparr>\<rparr>)"
  using assms
  unfolding Eager_onTransactionCommitted_def
  by (simp add: orphanedDocuments_def PersistencePromise_next_def newChangeBuffer_def
      stageOrphans_eq [OF assms(2)] apply_changes_def write_orphanedDocuments_def Let_def)

text \<open>
  C1 (eager exhaustiveness). A transaction is run under the eager delegate, and its body
  returns with the in-memory pins set. Then the commit hook succeeds, and every key that
  is in the orphan-candidate set when the body returns, and that no target matches, no
  mutation queue of any user contains and the in-memory pins do not hold, has its removal
  staged in the change buffer and is absent from the document cache in the state the
  transaction returns.
\<close>

theorem eager_exhaustiveness:
  assumes op: "transactionOperation \<lparr>currentSequenceNumber = listenSequence p0 + 1\<rparr>
                 (Eager_onTransactionStarted (p0\<lparr>listenSequence := listenSequence p0 + 1\<rparr>))
               = Inr (result, p)"
      and orphans: "orphanedDocuments (referenceDelegate p) = Inr orphans"
      and pins: "eager_inMemoryPins (referenceDelegate p) = Some pins"
  shows "\<exists>staged p'.
           stageOrphans p \<lparr>currentSequenceNumber = listenSequence p0 + 1\<rparr> orphans
               (newChangeBuffer (remoteDocumentCache p)) = Inr staged
         \<and> Eager_runTransaction p0 action mode transactionOperation = Inr (result, p')
         \<and> (\<forall>key\<in>set orphans.
               TargetCache_containsKey (targetCache p)
                   \<lparr>currentSequenceNumber = listenSequence p0 + 1\<rparr> key = Inr False
               \<and> (\<forall>q\<in>set (mutationQueues p).
                     MutationQueue_containsKey (snd q)
                       \<lparr>currentSequenceNumber = listenSequence p0 + 1\<rparr> key = Inr False)
               \<and> \<not> ReferenceSet_containsKey pins key
               \<longrightarrow> key \<in> set staged \<and> \<not> cacheContains (remoteDocumentCache p') key)"
proof -
  let ?txn = "\<lparr>currentSequenceNumber = listenSequence p0 + 1\<rparr>"
  let ?staged = "filter (\<lambda>key. Eager_isReferenced p ?txn key = Inr False) orphans"
  let ?p' = "(write_orphanedDocuments p None)
        \<lparr>remoteDocumentCache := (remoteDocumentCache p)
           \<lparr>docs := filter (\<lambda>d. path d \<notin> set (map path ?staged))
                      (docs (remoteDocumentCache p))\<rparr>\<rparr>"
  from orphans have priv: "priv_orphanedDocuments (referenceDelegate p) = Some orphans"
    by (simp add: orphanedDocuments_def split: option.splits)
  have staged: "stageOrphans p ?txn orphans (newChangeBuffer (remoteDocumentCache p)) = Inr ?staged"
    by (simp add: stageOrphans_eq [OF pins] newChangeBuffer_def)
  have commit: "Eager_onTransactionCommitted p ?txn = Inr ?p'"
    by (rule onTransactionCommitted_eq [OF priv pins])
  have run: "Eager_runTransaction p0 action mode transactionOperation = Inr (result, ?p')"
    unfolding Eager_runTransaction_def runTransaction_def
    by (simp add: Let_def op commit PersistencePromise_next_def)
  have gone: "key \<in> set ?staged \<and> \<not> cacheContains (remoteDocumentCache ?p') key"
    if "key \<in> set orphans"
      and "TargetCache_containsKey (targetCache p) ?txn key = Inr False"
      and "\<forall>q\<in>set (mutationQueues p). MutationQueue_containsKey (snd q) ?txn key = Inr False"
      and "\<not> ReferenceSet_containsKey pins key" for key
  proof -
    have "Eager_isReferenced p ?txn key = Inr False"
      using that by (simp add: isReferenced_eq [OF pins] TargetCache_containsKey_def
          MutationQueue_containsKey_def)
    with that(1) have k: "key \<in> set ?staged" by simp
    then have "path key \<in> set (map path ?staged)" by (metis image_eqI set_map)
    then have "path key \<notin> set (map path (filter (\<lambda>d. path d \<notin> set (map path ?staged))
                 (docs (remoteDocumentCache p))))"
      by (rule removed_path_absent)
    then show ?thesis using k
      by (simp add: cacheContains_def write_orphanedDocuments_def del: set_filter set_map)
  qed
  show ?thesis
    using staged run gone by blast
qed

theorem eager_exhaustiveness_witness:
  "\<exists>p'. Eager_runTransaction eagerExample ''sync'' ''readwrite'' exampleOperation = Inr ((), p')
        \<and> \<not> cacheContains (remoteDocumentCache p') keyA1"
proof -
  let ?txn = "\<lparr>currentSequenceNumber = listenSequence eagerExample + 1\<rparr>"
  let ?p = "write_orphanedDocuments (eagerExample\<lparr>listenSequence := listenSequence eagerExample + 1\<rparr>)
              (Some [keyA1, keyB])"
  have op: "exampleOperation ?txn
      (Eager_onTransactionStarted (eagerExample\<lparr>listenSequence := listenSequence eagerExample + 1\<rparr>))
      = Inr ((), ?p)"
    by (simp add: exampleOperation_def example_defs eager_defs)
  have orphans: "orphanedDocuments (referenceDelegate ?p) = Inr [keyA1, keyB]"
    by (simp add: eager_defs)
  have pins: "eager_inMemoryPins (referenceDelegate ?p) = Some []"
    by (simp add: example_defs eager_defs)
  from eager_exhaustiveness [where transactionOperation = exampleOperation
      and ?p0.0 = eagerExample and action = "''sync''" and mode = "''readwrite''",
      OF op orphans pins]
  obtain staged p' where
    run: "Eager_runTransaction eagerExample ''sync'' ''readwrite'' exampleOperation = Inr ((), p')"
    and gone: "TargetCache_containsKey (targetCache ?p) ?txn keyA1 = Inr False
               \<and> (\<forall>q\<in>set (mutationQueues ?p).
                     MutationQueue_containsKey (snd q) ?txn keyA1 = Inr False)
               \<and> \<not> ReferenceSet_containsKey [] keyA1
               \<longrightarrow> keyA1 \<in> set staged \<and> \<not> cacheContains (remoteDocumentCache p') keyA1"
    by auto
  have "TargetCache_containsKey (targetCache ?p) ?txn keyA1 = Inr False
               \<and> (\<forall>q\<in>set (mutationQueues ?p).
                     MutationQueue_containsKey (snd q) ?txn keyA1 = Inr False)
               \<and> \<not> ReferenceSet_containsKey [] keyA1"
    by (simp add: example_defs eager_defs)
  with gone have "\<not> cacheContains (remoteDocumentCache p') keyA1" by blast
  with run show ?thesis by blast
qed

section \<open>The eager delegate: where the candidate set can be read\<close>

lemma addOrphans_window:
  "addOrphans p keys = Inr p' \<Longrightarrow>
     (priv_orphanedDocuments (referenceDelegate p') = None)
       = (priv_orphanedDocuments (referenceDelegate p) = None)"
proof (induction keys arbitrary: p)
  case Nil
  then show ?case by simp
next
  case (Cons key keys)
  then show ?case
    by (auto simp: orphanedDocuments_def write_orphanedDocuments_def
        split: option.splits)
qed

lemma removeTarget_window:
  assumes "Eager_removeTarget p txn targetData = Inr p'"
  shows "(priv_orphanedDocuments (referenceDelegate p') = None)
       = (priv_orphanedDocuments (referenceDelegate p) = None)"
proof -
  let ?keys = "map fst (filter (\<lambda>r. snd r = targetId targetData) (references (targetCache p)))"
  from assms obtain p1 where p1: "addOrphans p ?keys = Inr p1"
    unfolding Eager_removeTarget_def PersistencePromise_next_def getMatchingKeysForTargetId_def
    by (cases "addOrphans p ?keys") simp_all
  with assms have "referenceDelegate p' = referenceDelegate p1"
    unfolding Eager_removeTarget_def PersistencePromise_next_def getMatchingKeysForTargetId_def
      removeTargetData_def
    by auto
  with addOrphans_window [OF p1] show ?thesis by simp
qed

lemma Eager_call_window:
  assumes "Eager_call c p = Inr p'"
  shows "(priv_orphanedDocuments (referenceDelegate p') \<noteq> None)
       = inTransaction (priv_orphanedDocuments (referenceDelegate p) \<noteq> None) [c]"
proof (cases c)
  case OnTransactionStarted
  with assms show ?thesis
    by (auto simp: Eager_onTransactionStarted_def write_orphanedDocuments_def)
next
  case (AddReference txn key)
  with assms show ?thesis
    by (auto simp: Eager_addReference_def PersistencePromise_next_def orphanedDocuments_def
        write_orphanedDocuments_def split: option.splits)
next
  case (RemoveReference txn key)
  with assms show ?thesis
    by (auto simp: Eager_removeReference_def PersistencePromise_next_def orphanedDocuments_def
        write_orphanedDocuments_def split: option.splits)
next
  case (RemoveMutationReference txn key)
  with assms show ?thesis
    by (auto simp: Eager_removeMutationReference_def PersistencePromise_next_def
        orphanedDocuments_def write_orphanedDocuments_def split: option.splits)
next
  case (RemoveTarget txn targetData)
  with assms show ?thesis
    using removeTarget_window [of p txn targetData p'] by simp
next
  case (UpdateLimboDocument txn key)
  with assms show ?thesis
    by (auto simp: Eager_updateLimboDocument_def PersistencePromise_next_def
        orphanedDocuments_def write_orphanedDocuments_def split: option.splits sum.splits if_splits)
next
  case (OnTransactionCommitted txn)
  with assms show ?thesis
    by (auto simp: Eager_onTransactionCommitted_def PersistencePromise_next_def Let_def
        orphanedDocuments_def write_orphanedDocuments_def apply_changes_def
        split: option.splits sum.splits)
qed

lemma inTransaction_step:
  "inTransaction b (c # cs) = inTransaction (inTransaction b [c]) cs"
  by (cases c) simp_all

lemma Eager_calls_window:
  "Eager_calls calls p = Inr p' \<Longrightarrow>
     (priv_orphanedDocuments (referenceDelegate p') \<noteq> None)
       = inTransaction (priv_orphanedDocuments (referenceDelegate p) \<noteq> None) calls"
proof (induction calls arbitrary: p)
  case Nil
  then show ?case by simp
next
  case (Cons c calls)
  from Cons.prems obtain p1 where c: "Eager_call c p = Inr p1"
    and rest: "Eager_calls calls p1 = Inr p'"
    by (auto split: sum.splits)
  from Cons.IH [OF rest] Eager_call_window [OF c] show ?case
    by (subst inTransaction_step) simp
qed

text \<open>
  C7 (fatal access to the candidate set). A delegate starts with no candidate set. After
  any list of calls that all returned, the getter \<^verbatim>\<open>orphanedDocuments\<close> yields the set
  when the list ends between a transaction start and the completion of the next commit,
  and so do the callbacks that read it; when the list ends outside that window the getter
  fails with the internal assertion failure of \<^verbatim>\<open>fail\<close>, which is not a
  \<^verbatim>\<open>FirestoreError\<close>, and so does every callback that reads it first.
\<close>

theorem scratch_set_access:
  fixes msg :: string
  defines "msg \<equiv> ''orphanedDocuments is only valid during a transaction.''"
  assumes new: "priv_orphanedDocuments (referenceDelegate p) = None"
      and run: "Eager_calls calls p = Inr p'"
  shows "(inTransaction False calls \<longrightarrow>
            (\<exists>s. orphanedDocuments (referenceDelegate p') = Inr s
                \<and> Eager_addReference p' txn key =
                    Inr (write_orphanedDocuments p' (Some (Set_delete s key)))
                \<and> Eager_removeReference p' txn key =
                    Inr (write_orphanedDocuments p' (Some (Set_add s key)))
                \<and> Eager_removeMutationReference p' txn key =
                    Inr (write_orphanedDocuments p' (Some (Set_add s key)))))
       \<and> (\<not> inTransaction False calls \<longrightarrow>
            orphanedDocuments (referenceDelegate p') = Inl (AssertionFailure msg)
          \<and> Eager_addReference p' txn key = Inl (AssertionFailure msg)
          \<and> Eager_removeReference p' txn key = Inl (AssertionFailure msg)
          \<and> Eager_removeMutationReference p' txn key = Inl (AssertionFailure msg)
          \<and> Eager_onTransactionCommitted p' txn = Inl (AssertionFailure msg))"
proof -
  have w: "(priv_orphanedDocuments (referenceDelegate p') \<noteq> None) = inTransaction False calls"
    using Eager_calls_window [OF run] new by simp
  show ?thesis
  proof (cases "priv_orphanedDocuments (referenceDelegate p')")
    case None
    with w show ?thesis
      by (simp add: orphanedDocuments_def Eager_addReference_def Eager_removeReference_def
          Eager_removeMutationReference_def Eager_onTransactionCommitted_def
          PersistencePromise_next_def msg_def Let_def)
  next
    case (Some s)
    with w show ?thesis
      by (simp add: orphanedDocuments_def Eager_addReference_def Eager_removeReference_def
          Eager_removeMutationReference_def PersistencePromise_next_def)
  qed
qed

theorem scratch_set_access_witness:
  "inTransaction False [OnTransactionStarted, RemoveReference \<lparr>currentSequenceNumber = 1\<rparr> keyA1]
   \<and> (\<exists>s. orphanedDocuments (referenceDelegate
              (write_orphanedDocuments eagerExample (Some [keyA1]))) = Inr s)
   \<and> \<not> inTransaction False [OnTransactionStarted, OnTransactionCommitted \<lparr>currentSequenceNumber = 1\<rparr>]
   \<and> Eager_addReference eagerExample \<lparr>currentSequenceNumber = 2\<rparr> keyB
        = Inl (AssertionFailure ''orphanedDocuments is only valid during a transaction.'')"
proof -
  let ?txn = "\<lparr>currentSequenceNumber = 1\<rparr>"
  have new: "priv_orphanedDocuments (referenceDelegate eagerExample) = None"
    by (simp add: example_defs)
  have r1: "Eager_calls [OnTransactionStarted, RemoveReference ?txn keyA1] eagerExample
      = Inr (write_orphanedDocuments eagerExample (Some [keyA1]))"
    by (simp add: eager_defs)
  have r2: "Eager_calls [OnTransactionStarted, OnTransactionCommitted ?txn] eagerExample
      = Inr eagerExample"
    by (simp add: example_defs eager_defs Let_def)
  have w1: "inTransaction False [OnTransactionStarted, RemoveReference ?txn keyA1]" by simp
  have w2: "\<not> inTransaction False [OnTransactionStarted, OnTransactionCommitted ?txn]" by simp
  from scratch_set_access [OF new r1, of "\<lparr>currentSequenceNumber = 2\<rparr>" keyB] w1
  have a: "\<exists>s. orphanedDocuments (referenceDelegate
              (write_orphanedDocuments eagerExample (Some [keyA1]))) = Inr s"
    by blast
  from scratch_set_access [OF new r2, of "\<lparr>currentSequenceNumber = 2\<rparr>" keyB] w2
  have b: "Eager_addReference eagerExample \<lparr>currentSequenceNumber = 2\<rparr> keyB
        = Inl (AssertionFailure ''orphanedDocuments is only valid during a transaction.'')"
    by blast
  from w1 a w2 b show ?thesis by blast
qed

section \<open>The LRU delegate: the reachability check and the sweep\<close>

lemma isPinned_value:
  assumes "lru_inMemoryPins (referenceDelegate p) = Some pins"
  shows "Lru_isPinned p txn key U = Inr (pinnedValue p pins key U)"
  using assms
  unfolding Lru_isPinned_def isPinned_predicates_def PersistencePromise_or_def pinnedValue_def
  by (auto simp: mutationQueuesContainKey_eq TargetCache_containsKey_def Let_def split: option.splits)

lemma pinnedValue_path:
  "path k = path k' \<Longrightarrow> pinnedValue p pins k U = pinnedValue p pins k' U"
  by (simp add: pinnedValue_def ReferenceSet_containsKey_def ObjectMap_get_def)

lemma sweepDocuments_eq:
  assumes "lru_inMemoryPins (referenceDelegate p) = Some pins"
  shows "sweepDocuments p txn U keys (count, buffer) =
     Inr (count + length (filter (\<lambda>k. \<not> pinnedValue p pins k U) keys),
          buffer @ filter (\<lambda>k. \<not> pinnedValue p pins k U) keys)"
proof (induction keys arbitrary: count buffer)
  case Nil
  show ?case by simp
next
  case (Cons key keys)
  show ?case
    by (simp add: Cons.IH isPinned_value [OF assms] removeEntry_def)
qed

lemma filter_unpinned_paths:
  "filter (\<lambda>d. path d \<notin> set (map path (filter (\<lambda>k. \<not> pinnedValue p pins k U) ds))) ds
     = filter (\<lambda>k. pinnedValue p pins k U) ds"
proof (rule filter_cong [OF refl])
  fix d assume d: "d \<in> set ds"
  show "(path d \<notin> set (map path (filter (\<lambda>k. \<not> pinnedValue p pins k U) ds)))
          = pinnedValue p pins d U"
  proof
    assume "path d \<notin> set (map path (filter (\<lambda>k. \<not> pinnedValue p pins k U) ds))"
    with d show "pinnedValue p pins d U" by force
  next
    assume pin: "pinnedValue p pins d U"
    show "path d \<notin> set (map path (filter (\<lambda>k. \<not> pinnedValue p pins k U) ds))"
    proof
      assume "path d \<in> set (map path (filter (\<lambda>k. \<not> pinnedValue p pins k U) ds))"
      then obtain k where "k \<in> set ds" "\<not> pinnedValue p pins k U" "path k = path d" by auto
      with pin pinnedValue_path [of k d p pins U] show False by simp
    qed
  qed
qed

lemma removeOrphanedDocuments_eq:
  assumes "lru_inMemoryPins (referenceDelegate p) = Some pins"
  shows "Lru_removeOrphanedDocuments p txn U =
     Inr (length (filter (\<lambda>k. \<not> pinnedValue p pins k U) (docs (remoteDocumentCache p))),
          p\<lparr>remoteDocumentCache := (remoteDocumentCache p)
              \<lparr>docs := filter (\<lambda>k. pinnedValue p pins k U) (docs (remoteDocumentCache p))\<rparr>\<rparr>)"
  unfolding Lru_removeOrphanedDocuments_def
  by (simp add: Let_def newChangeBuffer_def sweepDocuments_eq [OF assms]
      PersistencePromise_next_def apply_changes_def filter_unpinned_paths
      del: set_map set_filter)

text \<open>
  C3 (the reachability check and its order). With the in-memory pins set, the four
  predicates of \<^verbatim>\<open>isPinned\<close> are, in this order: some mutation queue contains the key,
  the in-memory pins contain it, the target cache contains it, its stored sequence number
  is strictly above the bound. \<^verbatim>\<open>isPinned\<close> yields their disjunction, false when
  the key has no stored sequence number and the first three are false, and the number of
  predicates it calls is the position of the first that is true (all four when none is).
  When a mutation queue contains the key the answer is true after one call, whether or
  not the pins are set.
\<close>

theorem isPinned_lazy_or:
  fixes p :: "MemoryLruDelegate MemoryPersistence"
  defines "a \<equiv> \<lambda>txn key. \<exists>q\<in>set (mutationQueues p). MutationQueue_containsKey (snd q) txn key = Inr True"
      and "c \<equiv> \<lambda>txn key. TargetCache_containsKey (targetCache p) txn key = Inr True"
      and "d \<equiv> \<lambda>key U. \<exists>n. ObjectMap_get (orphanedSequenceNumbers (referenceDelegate p)) key = Some n \<and> n > U"
  shows "(lru_inMemoryPins (referenceDelegate p) = Some pins \<longrightarrow>
            map (\<lambda>predicate. predicate ()) (isPinned_predicates p txn key U) =
              [Inr (a txn key), Inr (ReferenceSet_containsKey pins key), Inr (c txn key), Inr (d key U)]
          \<and> Lru_isPinned p txn key U =
              Inr (a txn key \<or> ReferenceSet_containsKey pins key \<or> c txn key \<or> d key U)
          \<and> predicatesCalled (isPinned_predicates p txn key U) =
              (if a txn key then 1 else if ReferenceSet_containsKey pins key then 2
               else if c txn key then 3 else 4)
          \<and> (ObjectMap_get (orphanedSequenceNumbers (referenceDelegate p)) key = None
               \<and> \<not> a txn key \<and> \<not> ReferenceSet_containsKey pins key \<and> \<not> c txn key
               \<longrightarrow> Lru_isPinned p txn key U = Inr False))
       \<and> (a txn key \<longrightarrow>
            Lru_isPinned p txn key U = Inr True
          \<and> predicatesCalled (isPinned_predicates p txn key U) = 1)"
proof -
  have a: "mutationQueuesContainKey p txn key = Inr (a txn key)"
    by (simp add: mutationQueuesContainKey_eq a_def MutationQueue_containsKey_def)
  have c: "TargetCache_containsKey (targetCache p) txn key = Inr (c txn key)"
    by (simp add: c_def TargetCache_containsKey_def)
  have d: "(case ObjectMap_get (orphanedSequenceNumbers (referenceDelegate p)) key of
              None \<Rightarrow> False | Some n \<Rightarrow> n > U) = d key U"
    by (simp add: d_def split: option.splits)
  have none: "\<not> d key U"
    if "ObjectMap_get (orphanedSequenceNumbers (referenceDelegate p)) key = None"
    using that by (simp add: d_def)
  show ?thesis
    unfolding Lru_isPinned_def predicatesCalled_def PersistencePromise_or_def
      isPinned_predicates_def
    using none by (simp add: a c d Let_def)
qed

theorem isPinned_lazy_or_witness:
  "Lru_isPinned (lruExample\<lparr>mutationQueues := [(''alice'', [keyA2])]\<rparr>)
      \<lparr>currentSequenceNumber = 11\<rparr> keyA1 10 = Inr True
   \<and> predicatesCalled (isPinned_predicates (lruExample\<lparr>mutationQueues := [(''alice'', [keyA2])]\<rparr>)
      \<lparr>currentSequenceNumber = 11\<rparr> keyA1 10) = 1
   \<and> Lru_isPinned lruExample \<lparr>currentSequenceNumber = 11\<rparr> keyB 10 = Inr True
   \<and> predicatesCalled (isPinned_predicates lruExample \<lparr>currentSequenceNumber = 11\<rparr> keyB 10) = 3
   \<and> Lru_isPinned lruExample \<lparr>currentSequenceNumber = 11\<rparr> keyA1 10 = Inr False
   \<and> predicatesCalled (isPinned_predicates lruExample \<lparr>currentSequenceNumber = 11\<rparr> keyA1 10) = 4"
proof -
  let ?q = "lruExample\<lparr>mutationQueues := [(''alice'', [keyA2])]\<rparr>"
  let ?txn = "\<lparr>currentSequenceNumber = 11\<rparr>"
  have pq: "lru_inMemoryPins (referenceDelegate ?q) = Some []"
    by (simp add: example_defs)
  have pe: "lru_inMemoryPins (referenceDelegate lruExample) = Some []"
    by (simp add: example_defs)
  have a: "\<exists>q\<in>set (mutationQueues ?q). MutationQueue_containsKey (snd q) ?txn keyA1 = Inr True"
    by (simp add: example_defs lru_defs)
  from isPinned_lazy_or [of ?q "[]" ?txn keyA1 10] pq a
  have 1: "Lru_isPinned ?q ?txn keyA1 10 = Inr True
      \<and> predicatesCalled (isPinned_predicates ?q ?txn keyA1 10) = 1"
    by blast
  from isPinned_lazy_or [of lruExample "[]" ?txn keyB 10] pe
  have 2: "Lru_isPinned lruExample ?txn keyB 10 = Inr True
      \<and> predicatesCalled (isPinned_predicates lruExample ?txn keyB 10) = 3"
    by (simp add: example_defs lru_defs)
  from isPinned_lazy_or [of lruExample "[]" ?txn keyA1 10] pe
  have 3: "Lru_isPinned lruExample ?txn keyA1 10 = Inr False
      \<and> predicatesCalled (isPinned_predicates lruExample ?txn keyA1 10) = 4"
    by (simp add: example_defs lru_defs)
  from 1 2 3 show ?thesis by blast
qed

text \<open>
  C2 (the sweep). With the in-memory pins set, \<^verbatim>\<open>removeOrphanedDocuments\<close> returns; it
  changes the document cache only, keeping exactly the keys for which \<^verbatim>\<open>isPinned\<close>
  is true at the bound; the count it returns is the number of keys for which
  \<^verbatim>\<open>isPinned\<close> is false, which is the number of keys deleted; and a key that the
  target cache contains, that the mutation queue of some user contains, or that the
  in-memory pins contain is kept, whatever its stored sequence number.
\<close>

theorem lru_sweep_correct:
  assumes pins: "lru_inMemoryPins (referenceDelegate p) = Some pins"
  shows "\<exists>count p'.
           Lru_removeOrphanedDocuments p txn U = Inr (count, p')
         \<and> p' = p\<lparr>remoteDocumentCache := remoteDocumentCache p'\<rparr>
         \<and> docs (remoteDocumentCache p') =
             filter (\<lambda>key. Lru_isPinned p txn key U = Inr True) (docs (remoteDocumentCache p))
         \<and> count = length (filter (\<lambda>key. Lru_isPinned p txn key U = Inr False)
                             (docs (remoteDocumentCache p)))
         \<and> count = length (docs (remoteDocumentCache p)) - length (docs (remoteDocumentCache p'))
         \<and> (\<forall>key\<in>set (docs (remoteDocumentCache p)).
               (TargetCache_containsKey (targetCache p) txn key = Inr True
                \<or> (\<exists>q\<in>set (mutationQueues p). MutationQueue_containsKey (snd q) txn key = Inr True)
                \<or> ReferenceSet_containsKey pins key)
               \<longrightarrow> key \<in> set (docs (remoteDocumentCache p')))"
proof -
  let ?ds = "docs (remoteDocumentCache p)"
  let ?p' = "p\<lparr>remoteDocumentCache := (remoteDocumentCache p)
              \<lparr>docs := filter (\<lambda>k. pinnedValue p pins k U) ?ds\<rparr>\<rparr>"
  have run: "Lru_removeOrphanedDocuments p txn U =
      Inr (length (filter (\<lambda>k. \<not> pinnedValue p pins k U) ?ds), ?p')"
    by (rule removeOrphanedDocuments_eq [OF pins])
  have frame: "?p' = p\<lparr>remoteDocumentCache := remoteDocumentCache ?p'\<rparr>" by simp
  have kept: "docs (remoteDocumentCache ?p') =
      filter (\<lambda>key. Lru_isPinned p txn key U = Inr True) ?ds"
    by (simp add: isPinned_value [OF pins])
  have cnt: "length (filter (\<lambda>k. \<not> pinnedValue p pins k U) ?ds) =
      length (filter (\<lambda>key. Lru_isPinned p txn key U = Inr False) ?ds)"
    by (simp add: isPinned_value [OF pins])
  have diff: "length (filter (\<lambda>k. \<not> pinnedValue p pins k U) ?ds) =
      length ?ds - length (docs (remoteDocumentCache ?p'))"
    using sum_length_filter_compl [of "\<lambda>k. pinnedValue p pins k U" ?ds] by simp
  have reach: "key \<in> set (docs (remoteDocumentCache ?p'))"
    if "key \<in> set ?ds"
      and "TargetCache_containsKey (targetCache p) txn key = Inr True
           \<or> (\<exists>q\<in>set (mutationQueues p). MutationQueue_containsKey (snd q) txn key = Inr True)
           \<or> ReferenceSet_containsKey pins key" for key
    using that
    by (auto simp: pinnedValue_def TargetCache_containsKey_def MutationQueue_containsKey_def)
  from reach have all: "\<forall>key\<in>set ?ds.
               (TargetCache_containsKey (targetCache p) txn key = Inr True
                \<or> (\<exists>q\<in>set (mutationQueues p). MutationQueue_containsKey (snd q) txn key = Inr True)
                \<or> ReferenceSet_containsKey pins key)
               \<longrightarrow> key \<in> set (docs (remoteDocumentCache ?p'))"
    by blast
  show ?thesis
    by (rule exI [of _ "length (filter (\<lambda>k. \<not> pinnedValue p pins k U) ?ds)"],
        rule exI [of _ ?p'], intro conjI)
       (fact run, fact frame, fact kept, fact cnt, fact diff, fact all)
qed

theorem lru_sweep_correct_witness:
  "(\<exists>p'. Lru_removeOrphanedDocuments lruExample \<lparr>currentSequenceNumber = 11\<rparr> 10 = Inr (1, p')
         \<and> docs (remoteDocumentCache p') = [keyB])
   \<and> (\<exists>p'. Lru_removeOrphanedDocuments (lruExample\<lparr>mutationQueues := [(''alice'', [keyA2])]\<rparr>)
            \<lparr>currentSequenceNumber = 11\<rparr> 10 = Inr (0, p')
         \<and> keyA1 \<in> set (docs (remoteDocumentCache p')))"
proof -
  let ?txn = "\<lparr>currentSequenceNumber = 11\<rparr>"
  let ?q = "lruExample\<lparr>mutationQueues := [(''alice'', [keyA2])]\<rparr>"
  have pins: "lru_inMemoryPins (referenceDelegate lruExample) = Some []"
    by (simp add: example_defs)
  from lru_sweep_correct [OF pins, of ?txn 10]
  obtain count p' where
    run: "Lru_removeOrphanedDocuments lruExample ?txn 10 = Inr (count, p')"
    and kept: "docs (remoteDocumentCache p') =
        filter (\<lambda>key. Lru_isPinned lruExample ?txn key 10 = Inr True)
          (docs (remoteDocumentCache lruExample))"
    and cnt: "count = length (filter
          (\<lambda>key. Lru_isPinned lruExample ?txn key 10 = Inr False)
          (docs (remoteDocumentCache lruExample)))"
    by blast
  have "docs (remoteDocumentCache p') = [keyB]"
    unfolding kept by (simp add: example_defs lru_defs)
  moreover have "count = 1"
    unfolding cnt by (simp add: example_defs lru_defs)
  ultimately have first: "\<exists>p'. Lru_removeOrphanedDocuments lruExample ?txn 10 = Inr (1, p')
         \<and> docs (remoteDocumentCache p') = [keyB]"
    using run by blast
  have pinsq: "lru_inMemoryPins (referenceDelegate ?q) = Some []"
    by (simp add: example_defs)
  from lru_sweep_correct [OF pinsq, of ?txn 10]
  obtain countq q' where
    runq: "Lru_removeOrphanedDocuments ?q ?txn 10 = Inr (countq, q')"
    and cntq: "countq = length (filter
          (\<lambda>key. Lru_isPinned ?q ?txn key 10 = Inr False)
          (docs (remoteDocumentCache ?q)))"
    and reach: "\<forall>key\<in>set (docs (remoteDocumentCache ?q)).
               (TargetCache_containsKey (targetCache ?q) ?txn key = Inr True
                \<or> (\<exists>q\<in>set (mutationQueues ?q).
                      MutationQueue_containsKey (snd q) ?txn key = Inr True)
                \<or> ReferenceSet_containsKey [] key)
               \<longrightarrow> key \<in> set (docs (remoteDocumentCache q'))"
    by blast
  have member: "keyA1 \<in> set (docs (remoteDocumentCache ?q))"
    by (simp add: example_defs)
  have queued: "\<exists>q\<in>set (mutationQueues ?q).
      MutationQueue_containsKey (snd q) ?txn keyA1 = Inr True"
    by (simp add: example_defs lru_defs)
  from reach member queued have "keyA1 \<in> set (docs (remoteDocumentCache q'))"
    by blast
  moreover have "countq = 0"
    unfolding cntq by (simp add: example_defs lru_defs)
  ultimately have second: "\<exists>p'. Lru_removeOrphanedDocuments ?q ?txn 10 = Inr (0, p')
         \<and> keyA1 \<in> set (docs (remoteDocumentCache p'))"
    using runq by blast
  from first second show ?thesis by blast
qed


lemma Lru_event_eq:
  "Lru_event ev p txn key = Inr (set_orphanedAt p key (currentSequenceNumber txn))"
  by (cases ev)
     (simp_all add: Lru_addReference_def Lru_removeReference_def
        Lru_removeMutationReference_def Lru_updateLimboDocument_def)

lemma cacheContains_filter:
  "cacheContains c key = (filter (\<lambda>d. isEqual d key) (docs c) \<noteq> [])"
  by (auto simp: cacheContains_def isEqual_def filter_empty_conv image_iff) metis

lemma pinned_key_kept:
  assumes pv: "pinnedValue p pins key U"
  shows "filter (\<lambda>d. isEqual d key) (filter (\<lambda>k. pinnedValue p pins k U) ds)
       = filter (\<lambda>d. isEqual d key) ds"
proof -
  have h: "pinnedValue p pins d U" if "isEqual d key" for d
  proof -
    from that have "path d = path key" by (simp add: isEqual_def)
    from pinnedValue_path [OF this] pv show ?thesis by blast
  qed
  have "filter (\<lambda>d. isEqual d key) (filter (\<lambda>k. pinnedValue p pins k U) ds)
      = filter (\<lambda>d. pinnedValue p pins d U \<and> isEqual d key) ds"
    by simp
  also have "\<dots> = filter (\<lambda>d. isEqual d key) ds"
    by (rule filter_cong [OF refl]) (use h in blast)
  finally show ?thesis .
qed

text \<open>
  C5 (LRU monotonic retention). A reference event of the LRU delegate stamps the key at
  sequence number \<open>S1\<close>, and a later one (on a key object of the same path) overwrites
  the stamp with \<open>S2\<close>. With the in-memory pins set, for every bound \<open>U\<close> with
  \<open>S1 \<le> U < S2\<close> the key is pinned, and the sweep at \<open>U\<close> returns and leaves every
  document cache entry of the key in place.
\<close>

theorem lru_monotonic_retention:
  assumes e1: "Lru_event ev1 p \<lparr>currentSequenceNumber = S1\<rparr> key = Inr p1"
      and e2: "Lru_event ev2 p1 \<lparr>currentSequenceNumber = S2\<rparr> key' = Inr p2"
      and same: "isEqual key key'"
      and bound: "S1 \<le> U" "U < S2"
      and pins: "lru_inMemoryPins (referenceDelegate p) = Some pins"
  shows "ObjectMap_get (orphanedSequenceNumbers (referenceDelegate p1)) key = Some S1
       \<and> ObjectMap_get (orphanedSequenceNumbers (referenceDelegate p2)) key = Some S2
       \<and> Lru_isPinned p2 txn key U = Inr True
       \<and> (\<exists>count p3. Lru_removeOrphanedDocuments p2 txn U = Inr (count, p3)
            \<and> filter (\<lambda>d. isEqual d key) (docs (remoteDocumentCache p3))
                = filter (\<lambda>d. isEqual d key) (docs (remoteDocumentCache p2))
            \<and> cacheContains (remoteDocumentCache p3) key
                = cacheContains (remoteDocumentCache p2) key)"
proof -
  from e1 have p1: "p1 = set_orphanedAt p key S1" by (simp add: Lru_event_eq)
  from e2 have p2: "p2 = set_orphanedAt p1 key' S2" by (simp add: Lru_event_eq)
  from same have path: "path key = path key'" by (simp add: isEqual_def)
  have g1: "ObjectMap_get (orphanedSequenceNumbers (referenceDelegate p1)) key = Some S1"
    unfolding p1 set_orphanedAt_def by (simp add: ObjectMap_get_set)
  have g2: "ObjectMap_get (orphanedSequenceNumbers (referenceDelegate p2)) key = Some S2"
    unfolding p2 set_orphanedAt_def by (simp add: ObjectMap_get_set path)
  have pins2: "lru_inMemoryPins (referenceDelegate p2) = Some pins"
    unfolding p2 p1 set_orphanedAt_def using pins by simp
  have pv: "pinnedValue p2 pins key U"
    unfolding pinnedValue_def using g2 bound(2) by blast
  have pinned: "Lru_isPinned p2 txn key U = Inr True"
    using isPinned_value [OF pins2, of txn key U] pv by simp
  let ?ds = "docs (remoteDocumentCache p2)"
  let ?p3 = "p2\<lparr>remoteDocumentCache := (remoteDocumentCache p2)
              \<lparr>docs := filter (\<lambda>k. pinnedValue p2 pins k U) ?ds\<rparr>\<rparr>"
  have sweep: "Lru_removeOrphanedDocuments p2 txn U =
      Inr (length (filter (\<lambda>k. \<not> pinnedValue p2 pins k U) ?ds), ?p3)"
    by (rule removeOrphanedDocuments_eq [OF pins2])
  have d3: "docs (remoteDocumentCache ?p3) = filter (\<lambda>k. pinnedValue p2 pins k U) ?ds"
    by simp
  have keep: "filter (\<lambda>d. isEqual d key) (docs (remoteDocumentCache ?p3))
      = filter (\<lambda>d. isEqual d key) ?ds"
    unfolding d3 by (rule pinned_key_kept [OF pv])
  have same_contains:
    "cacheContains (remoteDocumentCache ?p3) key = cacheContains (remoteDocumentCache p2) key"
    unfolding cacheContains_filter by (simp only: keep)
  have "\<exists>count p3. Lru_removeOrphanedDocuments p2 txn U = Inr (count, p3)
            \<and> filter (\<lambda>d. isEqual d key) (docs (remoteDocumentCache p3))
                = filter (\<lambda>d. isEqual d key) (docs (remoteDocumentCache p2))
            \<and> cacheContains (remoteDocumentCache p3) key
                = cacheContains (remoteDocumentCache p2) key"
    by (intro exI conjI) (fact sweep, fact keep, fact same_contains)
  with g1 g2 pinned show ?thesis by (intro conjI)
qed

theorem lru_monotonic_retention_witness:
  "(5::int) \<le> 10 \<and> (10::int) < 12
   \<and> (\<exists>count p3.
        Lru_removeOrphanedDocuments
          (set_orphanedAt (set_orphanedAt lruExample keyA1 5) keyA2 12)
          \<lparr>currentSequenceNumber = 13\<rparr> 10 = Inr (count, p3)
      \<and> cacheContains (remoteDocumentCache p3) keyA1)"
proof -
  let ?p1 = "set_orphanedAt lruExample keyA1 5"
  let ?p2 = "set_orphanedAt ?p1 keyA2 12"
  have e1: "Lru_event LruRemoveReference lruExample \<lparr>currentSequenceNumber = 5\<rparr> keyA1 = Inr ?p1"
    by (simp add: Lru_removeReference_def)
  have e2: "Lru_event LruAddReference ?p1 \<lparr>currentSequenceNumber = 12\<rparr> keyA2 = Inr ?p2"
    by (simp add: Lru_addReference_def)
  have same: "isEqual keyA1 keyA2" by (simp add: isEqual_def keyA1_def keyA2_def)
  have pins: "lru_inMemoryPins (referenceDelegate lruExample) = Some []"
    by (simp add: example_defs)
  have b1: "(5::int) \<le> 10" and b2: "(10::int) < 12" by simp_all
  from lru_monotonic_retention [OF e1 e2 same b1 b2 pins, of "\<lparr>currentSequenceNumber = 13\<rparr>"]
  obtain count p3 where
    run: "Lru_removeOrphanedDocuments ?p2 \<lparr>currentSequenceNumber = 13\<rparr> 10 = Inr (count, p3)"
    and c: "cacheContains (remoteDocumentCache p3) keyA1
              = cacheContains (remoteDocumentCache ?p2) keyA1"
    by blast
  have "cacheContains (remoteDocumentCache ?p2) keyA1"
    by (simp add: example_defs lru_defs)
  with c have "cacheContains (remoteDocumentCache p3) keyA1" by simp
  with run b1 b2 show ?thesis by blast
qed

section \<open>Removing a target\<close>

lemma addOrphans_eq:
  "priv_orphanedDocuments (referenceDelegate p) = Some s \<Longrightarrow>
     addOrphans p keys = Inr (write_orphanedDocuments p (Some (fold (\<lambda>key s. Set_add s key) keys s)))"
proof (induction keys arbitrary: p s)
  case Nil
  then show ?case by (simp add: write_orphanedDocuments_def)
next
  case (Cons key keys)
  have "addOrphans (write_orphanedDocuments p (Some (Set_add s key))) keys =
      Inr (write_orphanedDocuments (write_orphanedDocuments p (Some (Set_add s key)))
             (Some (fold (\<lambda>key s. Set_add s key) keys (Set_add s key))))"
    by (rule Cons.IH) (simp add: write_orphanedDocuments_def)
  with Cons.prems show ?case
    by (simp add: orphanedDocuments_def write_orphanedDocuments_def)
qed

lemma set_fold_Set_add:
  "set (fold (\<lambda>key s. Set_add s key) keys s) = set s \<union> set keys"
  by (induction keys arbitrary: s) (auto simp: Set_add_def)

text \<open>
  C4, as the claim states it, fails for the LRU delegate: target 1 matches \<^verbatim>\<open>rooms/b\<close>,
  and after \<^verbatim>\<open>removeTarget\<close> in a transaction of sequence number 7 the key has no
  stored sequence number and the target's metadata is still in the target cache, stamped
  with 7.
\<close>

theorem lru_removeTarget_counterexample:
  "Lru_removeTarget lruExample \<lparr>currentSequenceNumber = 7\<rparr> \<lparr>targetId = 1, sequenceNumber = 3\<rparr>
     = Inr (lruExample\<lparr>targetCache :=
              \<lparr>targets = [\<lparr>targetId = 1, sequenceNumber = 7\<rparr>], references = [(keyB, 1)]\<rparr>\<rparr>)
   \<and> getMatchingKeysForTargetId (targetCache lruExample) \<lparr>currentSequenceNumber = 7\<rparr> 1 = Inr [keyB]
   \<and> ObjectMap_get
        (orphanedSequenceNumbers (referenceDelegate
           (lruExample\<lparr>targetCache :=
              \<lparr>targets = [\<lparr>targetId = 1, sequenceNumber = 7\<rparr>], references = [(keyB, 1)]\<rparr>\<rparr>)))
        keyB = None
   \<and> targetId \<lparr>targetId = 1, sequenceNumber = 3\<rparr>
        \<in> set (map targetId (targets (targetCache
           (lruExample\<lparr>targetCache :=
              \<lparr>targets = [\<lparr>targetId = 1, sequenceNumber = 7\<rparr>], references = [(keyB, 1)]\<rparr>\<rparr>))))"
  by (simp add: Lru_removeTarget_def lruExample_def Lru_setInMemoryPins_def
      MemoryPersistence_new_def MemoryLruDelegate_new_def withSequenceNumber_def
      updateTargetData_def PersistencePromise_next_def getMatchingKeysForTargetId_def
      ObjectMap_get_def)


text \<open>
  C4, amended. Inside a transaction the eager delegate's \<^verbatim>\<open>removeTarget\<close> first adds
  every key the target still matches to the orphan-candidate set and then deletes the
  target's metadata from the target cache. The LRU delegate's \<^verbatim>\<open>removeTarget\<close> does
  neither: it stores the target's metadata stamped with the sequence number of the
  transaction and changes nothing else.
\<close>

theorem removeTarget_contract:
  fixes ep :: "MemoryEagerDelegate MemoryPersistence"
    and lp :: "MemoryLruDelegate MemoryPersistence"
  shows "(priv_orphanedDocuments (referenceDelegate ep) = Some s \<longrightarrow>
           (\<exists>keys ep1 cache ep'.
               getMatchingKeysForTargetId (targetCache ep) txn (targetId targetData) = Inr keys
             \<and> addOrphans ep keys = Inr ep1
             \<and> orphanedDocuments (referenceDelegate ep1) = Inr (fold (\<lambda>key s. Set_add s key) keys s)
             \<and> set (fold (\<lambda>key s. Set_add s key) keys s) = set s \<union> set keys
             \<and> removeTargetData (targetCache ep1) txn targetData = Inr cache
             \<and> targetId targetData \<notin> set (map targetId (targets cache))
             \<and> Eager_removeTarget ep txn targetData = Inr ep'
             \<and> ep' = ep1\<lparr>targetCache := cache\<rparr>))
       \<and> Lru_removeTarget lp txn targetData =
           Inr (lp\<lparr>targetCache := (targetCache lp)
                  \<lparr>targets :=
                     (if targetId targetData \<in> set (map targetId (targets (targetCache lp)))
                      then map (\<lambda>t. if targetId t = targetId targetData
                                     then targetData\<lparr>sequenceNumber := currentSequenceNumber txn\<rparr>
                                     else t) (targets (targetCache lp))
                      else targets (targetCache lp)
                             @ [targetData\<lparr>sequenceNumber := currentSequenceNumber txn\<rparr>])\<rparr>\<rparr>)"
proof -
  have lru: "Lru_removeTarget lp txn targetData =
           Inr (lp\<lparr>targetCache := (targetCache lp)
                  \<lparr>targets :=
                     (if targetId targetData \<in> set (map targetId (targets (targetCache lp)))
                      then map (\<lambda>t. if targetId t = targetId targetData
                                     then targetData\<lparr>sequenceNumber := currentSequenceNumber txn\<rparr>
                                     else t) (targets (targetCache lp))
                      else targets (targetCache lp)
                             @ [targetData\<lparr>sequenceNumber := currentSequenceNumber txn\<rparr>])\<rparr>\<rparr>)"
    by (simp add: Lru_removeTarget_def withSequenceNumber_def updateTargetData_def
        PersistencePromise_next_def Let_def)
  have eager: "\<exists>keys ep1 cache ep'.
               getMatchingKeysForTargetId (targetCache ep) txn (targetId targetData) = Inr keys
             \<and> addOrphans ep keys = Inr ep1
             \<and> orphanedDocuments (referenceDelegate ep1) = Inr (fold (\<lambda>key s. Set_add s key) keys s)
             \<and> set (fold (\<lambda>key s. Set_add s key) keys s) = set s \<union> set keys
             \<and> removeTargetData (targetCache ep1) txn targetData = Inr cache
             \<and> targetId targetData \<notin> set (map targetId (targets cache))
             \<and> Eager_removeTarget ep txn targetData = Inr ep'
             \<and> ep' = ep1\<lparr>targetCache := cache\<rparr>"
    if s: "priv_orphanedDocuments (referenceDelegate ep) = Some s"
    unfolding Eager_removeTarget_def
    by (auto simp: getMatchingKeysForTargetId_def addOrphans_eq [OF s] set_fold_Set_add
        PersistencePromise_next_def removeTargetData_def orphanedDocuments_def
        write_orphanedDocuments_def)
  show ?thesis
  proof (intro conjI impI)
    assume "priv_orphanedDocuments (referenceDelegate ep) = Some s"
    then show "\<exists>keys ep1 cache ep'.
               getMatchingKeysForTargetId (targetCache ep) txn (targetId targetData) = Inr keys
             \<and> addOrphans ep keys = Inr ep1
             \<and> orphanedDocuments (referenceDelegate ep1) = Inr (fold (\<lambda>key s. Set_add s key) keys s)
             \<and> set (fold (\<lambda>key s. Set_add s key) keys s) = set s \<union> set keys
             \<and> removeTargetData (targetCache ep1) txn targetData = Inr cache
             \<and> targetId targetData \<notin> set (map targetId (targets cache))
             \<and> Eager_removeTarget ep txn targetData = Inr ep'
             \<and> ep' = ep1\<lparr>targetCache := cache\<rparr>"
      by (rule eager)
  next
    show "Lru_removeTarget lp txn targetData =
           Inr (lp\<lparr>targetCache := (targetCache lp)
                  \<lparr>targets :=
                     (if targetId targetData \<in> set (map targetId (targets (targetCache lp)))
                      then map (\<lambda>t. if targetId t = targetId targetData
                                     then targetData\<lparr>sequenceNumber := currentSequenceNumber txn\<rparr>
                                     else t) (targets (targetCache lp))
                      else targets (targetCache lp)
                             @ [targetData\<lparr>sequenceNumber := currentSequenceNumber txn\<rparr>])\<rparr>\<rparr>)"
      by (rule lru)
  qed
qed

theorem removeTarget_contract_witness:
  "\<exists>ep'. Eager_removeTarget (Eager_onTransactionStarted eagerExample)
            \<lparr>currentSequenceNumber = 7\<rparr> \<lparr>targetId = 1, sequenceNumber = 3\<rparr> = Inr ep'
        \<and> orphanedDocuments (referenceDelegate ep') = Inr [keyB]
        \<and> targets (targetCache ep') = []"
proof -
  let ?ep = "Eager_onTransactionStarted eagerExample"
  let ?txn = "\<lparr>currentSequenceNumber = 7\<rparr>"
  let ?td = "\<lparr>targetId = 1, sequenceNumber = 3\<rparr>"
  have s: "priv_orphanedDocuments (referenceDelegate ?ep) = Some []"
    by (simp add: Eager_onTransactionStarted_def write_orphanedDocuments_def)
  from removeTarget_contract [of ?ep "[]" ?txn ?td] s
  obtain keys ep1 cache ep' where
    k: "getMatchingKeysForTargetId (targetCache ?ep) ?txn (targetId ?td) = Inr keys"
    and o: "orphanedDocuments (referenceDelegate ep1) = Inr (fold (\<lambda>key s. Set_add s key) keys [])"
    and c: "removeTargetData (targetCache ep1) ?txn ?td = Inr cache"
    and a: "addOrphans ?ep keys = Inr ep1"
    and r: "Eager_removeTarget ?ep ?txn ?td = Inr ep'"
    and e: "ep' = ep1\<lparr>targetCache := cache\<rparr>"
    by blast
  from k have keys: "keys = [keyB]"
    by (simp add: getMatchingKeysForTargetId_def example_defs eager_defs)
  from a have ep1: "ep1 = write_orphanedDocuments ?ep (Some [keyB])"
    unfolding keys by (simp add: eager_defs)
  from c have cache: "targets cache = []"
    unfolding ep1 by (auto simp: removeTargetData_def example_defs eager_defs)
  have "orphanedDocuments (referenceDelegate ep') = Inr [keyB]"
    unfolding e ep1 by (simp add: eager_defs)
  moreover have "targets (targetCache ep') = []"
    unfolding e using cache by simp
  ultimately show ?thesis using r by blast
qed

section \<open>The eager delegate: an add after a remove\<close>

lemma cancel_same_object:
  assumes "Eager_removeReference p txn key = Inr p1"
      and "Eager_addReference p1 txn key = Inr p2"
  shows "\<exists>s. orphanedDocuments (referenceDelegate p2) = Inr s \<and> key \<notin> set s"
  using assms
  by (auto simp: Eager_removeReference_def Eager_addReference_def PersistencePromise_next_def
      orphanedDocuments_def write_orphanedDocuments_def Set_delete_def split: option.splits)

text \<open>
  C6 (eager cancel-on-add), evaluated where the code departs from it. The candidate set
  is a built-in set of key objects, so \<^verbatim>\<open>delete\<close> removes the object it is given
  and no other object of the same path. \<open>keyA1\<close> and \<open>keyA2\<close> are two objects for
  \<^verbatim>\<open>rooms/a\<close>, which is cached and referenced by nothing. In one transaction the
  pending write on \<open>keyA1\<close> is acknowledged, then a reference to \<open>keyA2\<close> is removed
  and added again: the add leaves \<open>keyA1\<close> in the candidate set, and the commit deletes
  \<^verbatim>\<open>rooms/a\<close> from the document cache. The same happens when the reference is removed
  through \<open>keyA1\<close> and added through \<open>keyA2\<close>.
\<close>

theorem cancel_on_add_aliased_keys:
  "isEqual keyA1 keyA2
   \<and> keyA1 \<noteq> keyA2
   \<and> cacheContains (remoteDocumentCache eagerExample) keyA2
   \<and> Eager_calls
        [OnTransactionStarted,
         RemoveMutationReference \<lparr>currentSequenceNumber = 1\<rparr> keyA1,
         RemoveReference \<lparr>currentSequenceNumber = 1\<rparr> keyA2,
         AddReference \<lparr>currentSequenceNumber = 1\<rparr> keyA2] eagerExample
       = Inr (write_orphanedDocuments eagerExample (Some [keyA1]))
   \<and> Eager_calls
        [OnTransactionStarted,
         RemoveMutationReference \<lparr>currentSequenceNumber = 1\<rparr> keyA1,
         RemoveReference \<lparr>currentSequenceNumber = 1\<rparr> keyA2,
         AddReference \<lparr>currentSequenceNumber = 1\<rparr> keyA2,
         OnTransactionCommitted \<lparr>currentSequenceNumber = 1\<rparr>] eagerExample
       = Inr (eagerExample\<lparr>remoteDocumentCache := \<lparr>docs = [keyB]\<rparr>\<rparr>)
   \<and> Eager_calls
        [OnTransactionStarted,
         RemoveReference \<lparr>currentSequenceNumber = 1\<rparr> keyA1,
         AddReference \<lparr>currentSequenceNumber = 1\<rparr> keyA2,
         OnTransactionCommitted \<lparr>currentSequenceNumber = 1\<rparr>] eagerExample
       = Inr (eagerExample\<lparr>remoteDocumentCache := \<lparr>docs = [keyB]\<rparr>\<rparr>)
   \<and> \<not> cacheContains (remoteDocumentCache
          (eagerExample\<lparr>remoteDocumentCache := \<lparr>docs = [keyB]\<rparr>\<rparr>)) keyA2"
  by (simp add: example_defs eager_defs Let_def)

section \<open>The provider\<close>

text \<open>
  C8 (durable configuration rejected). \<^verbatim>\<open>initialize\<close> with settings that ask for
  durable storage fails with the \<^verbatim>\<open>FAILED_PRECONDITION\<close> error carrying the fixed
  message, and leaves the provider and the remote store as they were, so no persistence,
  store or engine has been built; with other settings it returns. \<^verbatim>\<open>clearPersistence\<close>
  always fails with the same error.
\<close>

theorem durable_rejected:
  "(durable settings \<longrightarrow>
      initialize this asyncQueue remoteStore databaseInfo platform cid initialUser limit settings
        = (Inl (FirestoreError FAILED_PRECONDITION
                 (''You are using the memory-only build of Firestore. Persistence support is ''
                  @ ''only available via the @firebase/firestore bundle or the ''
                  @ ''firebase-firestore.js build.'')),
           this, remoteStore))
   \<and> (\<not> durable settings \<longrightarrow>
      fst (initialize this asyncQueue remoteStore databaseInfo platform cid initialUser limit
             settings) = Inr ())
   \<and> clearPersistence this
        = (Inl (FirestoreError FAILED_PRECONDITION
                 (''You are using the memory-only build of Firestore. Persistence support is ''
                  @ ''only available via the @firebase/firestore bundle or the ''
                  @ ''firebase-firestore.js build.'')),
           this)"
  by (simp add: initialize_def clearPersistence_def MEMORY_ONLY_PERSISTENCE_ERROR_MESSAGE_def
      Let_def)

theorem durable_rejected_witness:
  "durable \<lparr>durable = True\<rparr>
   \<and> initialize MemoryPersistenceProvider_new () \<lparr>remoteStore_syncEngine = None\<rparr> () ()
        ''client'' ''alice'' 100 \<lparr>durable = True\<rparr>
      = (Inl (FirestoreError FAILED_PRECONDITION MEMORY_ONLY_PERSISTENCE_ERROR_MESSAGE),
         MemoryPersistenceProvider_new, \<lparr>remoteStore_syncEngine = None\<rparr>)
   \<and> persistence MemoryPersistenceProvider_new = None
   \<and> localStore MemoryPersistenceProvider_new = None"
  using durable_rejected [of "\<lparr>durable = True\<rparr>" MemoryPersistenceProvider_new "()"
      "\<lparr>remoteStore_syncEngine = None\<rparr>" "()" "()" "''client''" "''alice''" 100]
  by (simp add: MEMORY_ONLY_PERSISTENCE_ERROR_MESSAGE_def MemoryPersistenceProvider_new_def)

text \<open>
  C9 (the provider chooses the eager policy). Whenever the settings do not ask for durable
  storage, \<^verbatim>\<open>initialize\<close> returns and the persistence it stores is the one built by
  the coordinator's constructor from the factory of a new eager delegate; its delegate
  is never an LRU delegate. When the settings ask for durable storage the persistence
  field is left as it was.
\<close>

theorem provider_chooses_eager:
  "(\<not> durable settings \<longrightarrow>
      (\<exists>this' remoteStore' created.
          initialize this asyncQueue remoteStore databaseInfo platform cid initialUser limit
            settings = (Inr (), this', remoteStore')
        \<and> created = MemoryPersistence_new (\<lambda>p. EagerDelegate MemoryEagerDelegate_new)
        \<and> persistence this' = Some created
        \<and> getPersistence this' = Inr created
        \<and> referenceDelegate created = EagerDelegate MemoryEagerDelegate_new
        \<and> (\<forall>lru. referenceDelegate created \<noteq> LruDelegate lru)))
   \<and> (durable settings \<longrightarrow>
      persistence (fst (snd (initialize this asyncQueue remoteStore databaseInfo platform cid
         initialUser limit settings))) = persistence this)"
  by (simp add: initialize_def Let_def getPersistence_def MemoryPersistence_new_def)

theorem provider_chooses_eager_witness:
  "\<not> durable \<lparr>durable = False\<rparr>
   \<and> (\<exists>this' remoteStore'.
        initialize MemoryPersistenceProvider_new () \<lparr>remoteStore_syncEngine = None\<rparr> () ()
          ''client'' ''alice'' 100 \<lparr>durable = False\<rparr> = (Inr (), this', remoteStore')
      \<and> map_option referenceDelegate (persistence this')
          = Some (EagerDelegate \<lparr>eager_inMemoryPins = None, priv_orphanedDocuments = None\<rparr>))"
  using provider_chooses_eager [of "\<lparr>durable = False\<rparr>" MemoryPersistenceProvider_new "()"
      "\<lparr>remoteStore_syncEngine = None\<rparr>" "()" "()" "''client''" "''alice''" 100]
  by (auto simp: MemoryEagerDelegate_new_def)

text \<open>
  C10 (the scheduler's flag). The property \<^verbatim>\<open>started\<close> of the object returned by
  \<^verbatim>\<open>getGarbageCollectionScheduler\<close> is false, \<^verbatim>\<open>start\<close> and \<^verbatim>\<open>stop\<close> leave it
  unchanged (they assign the captured local variable), and so it is false after any
  list of calls of the two.
\<close>

theorem scheduler_flag_unchanged:
  "scheduler_started (getGarbageCollectionScheduler this) = False
   \<and> scheduler_started (snd (scheduler_start s)) = scheduler_started s
   \<and> scheduler_started (snd (scheduler_stop s)) = scheduler_started s
   \<and> captured_started (snd (scheduler_start s)) = True
   \<and> captured_started (snd (scheduler_stop s)) = False
   \<and> scheduler_started (scheduler_calls calls (getGarbageCollectionScheduler this)) = False"
proof -
  have "scheduler_started (scheduler_calls calls s') = scheduler_started s'" for s'
    by (induction calls s' rule: scheduler_calls.induct)
       (simp_all add: scheduler_start_def scheduler_stop_def)
  then show ?thesis
    by (simp add: getGarbageCollectionScheduler_def scheduler_start_def scheduler_stop_def)
qed

end
